theory Spec2Isabelle
  imports Complex_Main "HOL-Library.Word" "HOL-Library.AList"
begin

section \<open>Batched training loop of \<open>chainerrl/experiments/train_agent_batch.py\<close>\<close>

text \<open>
  The file drives a vector environment of \<open>N\<close> instances and an agent. Both are
  supplied by the caller, as are the evaluator, the step hooks, \<open>save_agent\<close> and
  \<open>ask_yes_no\<close>. The model therefore has two parts.

  \<^item> What the collaborators answer is an input: a \<open>world\<close> holds, for every call the
    loop makes, whether that call raises and what it returns (one \<open>response\<close> per
    iteration of the loop).
  \<^item> What the loop does to the collaborators is an output: every call is appended to a
    trace of \<open>event\<close>s, in the order of the source.

  The array \<open>episode_r\<close> is \<open>float32\<close> in the source: its entries are values of
  \<open>fval\<close>, a finite number, an infinity or not-a-number, and how a sum is rounded into
  \<open>float32\<close> is a parameter of the model (\<open>numerics\<close>). \<open>episode_len\<close> is a
  \<open>float32\<close> counter of whole numbers, which stops counting at \<open>2^24\<close>.
  \<open>episode_idx\<close> is \<open>int32\<close> and is a 32-bit word here. Arrays are one-dimensional
  lists. The number of instances and the size of the window are natural numbers. The
  content of a file is read off the trace (\<open>file_after\<close>). An exception is raised by
  a call or by an operation of the loop itself; an interrupt that arrives between two
  statements is modelled as raised by the next call.
\<close>

subsection \<open>Exceptions\<close>

text \<open>
  The classes of raised objects that the source distinguishes. \<open>OtherException\<close> stands
  for any other subclass of Python's \<open>Exception\<close>; \<open>SystemExit\<close> for a
  \<open>BaseException\<close> that is neither an \<open>Exception\<close> nor a \<open>KeyboardInterrupt\<close>.
\<close>

datatype exn =
    AttributeError
  | TypeError
  | ZeroDivisionError
  | ValueError
  | OtherException nat
  | KeyboardInterrupt
  | SystemExit

text \<open>Line 150: \<open>except (Exception, KeyboardInterrupt)\<close>.\<close>

fun caught :: "exn \<Rightarrow> bool" where
  "caught SystemExit = False"
| "caught _ = True"

datatype outcome = Returned | Raised exn

subsection \<open>Values and events\<close>

text \<open>A floating-point value: finite, plus or minus infinity, or not-a-number.\<close>

datatype fval = Num real | PInf | NInf | NaN

text \<open>
  What the platform computes and the source does not fix: \<open>round32\<close> is the
  \<open>float32\<close> that the exact sum of two finite numbers becomes in \<open>episode_r += r\<close>
  (a finite number, or an infinity on overflow), \<open>mean32\<close> is \<open>np.mean\<close> of a
  sequence that is not empty, \<open>repr_float\<close> is \<open>str\<close> of a finite float.
\<close>

record numerics =
  round32 :: "real \<Rightarrow> fval"
  mean32 :: "fval list \<Rightarrow> fval"
  repr_float :: "real \<Rightarrow> string"

text \<open>
  Addition into a \<open>float32\<close> under the rounding \<open>rnd\<close>, with the special values as
  IEEE 754 has them.
\<close>

fun add32 :: "(real \<Rightarrow> fval) \<Rightarrow> fval \<Rightarrow> fval \<Rightarrow> fval" where
  "add32 rnd (Num a) (Num b) = rnd (a + b)"
| "add32 rnd NaN _ = NaN"
| "add32 rnd _ NaN = NaN"
| "add32 rnd PInf NInf = NaN"
| "add32 rnd NInf PInf = NaN"
| "add32 rnd PInf _ = PInf"
| "add32 rnd _ PInf = PInf"
| "add32 rnd NInf _ = NInf"
| "add32 rnd _ NInf = NInf"

text \<open>
  \<open>x * m\<close> for a mask entry \<open>m\<close>, which is \<open>1.0\<close> or \<open>0.0\<close>: exact on a finite
  \<open>x\<close>; an infinity or not-a-number times zero is not-a-number.
\<close>

fun mul_mask :: "fval \<Rightarrow> bool \<Rightarrow> fval" where
  "mul_mask (Num a) m = Num (a * of_bool m)"
| "mul_mask PInf m = (if m then PInf else NaN)"
| "mul_mask NInf m = (if m then NInf else NaN)"
| "mul_mask NaN m = NaN"

text \<open>
  \<open>l + 1\<close> on the \<open>float32\<close> counter \<open>episode_len\<close>, whose values are the whole
  numbers from 0 to \<open>2^24\<close>: exact below \<open>2^24\<close>; \<open>2^24 + 1\<close> is not a \<open>float32\<close>
  and rounds back to \<open>2^24\<close>.
\<close>

definition succ32 :: "int \<Rightarrow> int" where
  "succ32 l = (if l < 2 ^ 24 then l + 1 else l)"

text \<open>\<open>np.mean\<close>: not-a-number for an empty sequence.\<close>

definition np_mean :: "numerics \<Rightarrow> fval list \<Rightarrow> fval" where
  "np_mean fp xs = (if xs = [] then NaN else mean32 fp xs)"

text \<open>\<open>str\<close> of a float.\<close>

definition str_fval :: "numerics \<Rightarrow> fval \<Rightarrow> string" where
  "str_fval fp v =
     (case v of Num x \<Rightarrow> repr_float fp x | PInf \<Rightarrow> ''inf'' | NInf \<Rightarrow> ''-inf'' | NaN \<Rightarrow> ''nan'')"

datatype pyval = PyBool bool | PyOther nat

type_synonym info = "(string \<times> pyval) list"

type_synonym env_ref = nat

text \<open>
  One event per call to a collaborator or to the file system. \<open>OpenFile p mode\<close> is
  \<open>open(p, mode)\<close> returning a file, \<open>OpenFailed p mode\<close> the same call raising, and
  \<open>FilePrint p text\<close> is \<open>text\<close> written to the file opened at \<open>p\<close>.
\<close>

datatype event =
    LogError
  | EnvReset
  | SetAgentT int
  | BatchActAndTrain
  | EnvStep
  | EnvResetMask "bool list"
  | BatchObserveAndTrain "fval list" "bool list" "info list"
  | StepHook nat int
  | OpenFile string string
  | OpenFailed string string
  | FilePrint string string
  | LogProgress string int fval int
  | GetStatistics
  | LogStatistics
  | EvaluateIfNecessary int "32 word list"
  | SaveAgent int string
  | EnvClose env_ref
  | AskYesNo string
  | ReplayBufferSave string
  | LogInfo string

subsection \<open>Configuration, collaborators, loop state\<close>

record batch_evaluator =
  eval_env :: env_ref

text \<open>
  The arguments of \<open>train_agent_batch\<close>. \<open>step_hooks\<close> lists the hooks by an
  identifier each; \<open>return_window_size\<close> is \<open>None\<close> for an unbounded deque.
\<close>

record config =
  env :: env_ref
  steps :: int
  outdir :: string
  log_interval :: "int option"
  max_episode_len :: "int option"
  eval_interval :: "int option"
  step_offset :: int
  evaluator :: "batch_evaluator option"
  successful_score :: "real option"
  step_hooks :: "nat list"
  return_window_size :: "nat option"
  save_training_r :: bool

text \<open>What the collaborators answer during one iteration of the loop.\<close>

record response =
  act_raises :: "exn option"
  step_result :: "exn + (fval list \<times> bool list \<times> info list)"
  reset_raises :: "exn option"
  observe_raises :: "exn option"
  hook_raises :: "nat \<Rightarrow> exn option"
  write_raises :: "exn option"
  statistics_raises :: "exn option"
  evaluate_result :: "exn + real"

text \<open>
  What the collaborators answer over a whole call, and the arithmetic of the platform:
  \<open>num_envs\<close> is the attribute access of line 82, \<open>evaluate_result\<close> above is
  \<open>evaluator.max_score\<close> after \<open>evaluate_if_necessary\<close> returned, \<open>write_raises\<close>
  above is \<open>open\<close> raising.
\<close>

record world =
  platform :: numerics
  num_envs :: "exn + nat"
  agent_has_t :: bool
  initial_reset_raises :: "exn option"
  responses :: "response list"
  save_agent_raises :: "exn option"
  env_close_raises :: "exn option"
  eval_env_close_raises :: "exn option"

record loop_state =
  global_t :: int
  episode_r :: "fval list"
  episode_idx :: "32 word list"
  episode_len :: "int list"
  recent_returns :: "fval list"
  trace :: "event list"

subsection \<open>Sequencing calls that may raise\<close>

text \<open>
  A raise inside the loop carries the state it happened in: the handler of line 150
  reads \<open>t\<close>, and the trace up to the raise stays.
\<close>

type_synonym 'a result = "(exn \<times> loop_state) + 'a"

definition then_do :: "'a result \<Rightarrow> ('a \<Rightarrow> 'b result) \<Rightarrow> 'b result" where
  "then_do m f = (case m of Inl x \<Rightarrow> Inl x | Inr a \<Rightarrow> f a)"

definition emit :: "event \<Rightarrow> loop_state \<Rightarrow> loop_state" where
  "emit ev s = s\<lparr>trace := trace s @ [ev]\<rparr>"

definition call :: "event \<Rightarrow> exn option \<Rightarrow> loop_state \<Rightarrow> loop_state result" where
  "call ev raises s =
     (case raises of Some e \<Rightarrow> Inl (e, emit ev s) | None \<Rightarrow> Inr (emit ev s))"

subsection \<open>Array operations of numpy on one-dimensional arrays\<close>

text \<open>
  \<open>bcast n ys\<close> brings \<open>ys\<close> to the length \<open>n\<close> of the array it is combined with in
  place: an array of that length is taken as it is, an array of length one is repeated,
  any other shape is numpy's \<open>ValueError\<close>.
\<close>

definition bcast :: "nat \<Rightarrow> 'a list \<Rightarrow> exn + 'a list" where
  "bcast n ys =
     (if length ys = n then Inr ys
      else if length ys = 1 then Inr (replicate n (hd ys))
      else Inl ValueError)"

definition inplace :: "('a \<Rightarrow> 'b \<Rightarrow> 'a) \<Rightarrow> 'a list \<Rightarrow> 'b list \<Rightarrow> exn + 'a list" where
  "inplace f xs ys =
     (case bcast (length xs) ys of Inl e \<Rightarrow> Inl e | Inr ys' \<Rightarrow> Inr (map2 f xs ys'))"

text \<open>\<open>np.logical_or\<close>: the result has the common shape of both arguments.\<close>

definition logical_or :: "bool list \<Rightarrow> bool list \<Rightarrow> exn + bool list" where
  "logical_or xs ys =
     (if length xs = length ys then Inr (map2 (\<or>) xs ys)
      else if length xs = 1 then Inr (map (\<lambda>y. hd xs \<or> y) ys)
      else if length ys = 1 then Inr (map (\<lambda>x. x \<or> hd ys) xs)
      else Inl ValueError)"

definition logical_not :: "bool list \<Rightarrow> bool list" where
  "logical_not xs = map Not xs"

text \<open>
  \<open>np.ma.masked_array(xs, ms).compressed()\<close>: the entries of \<open>xs\<close> whose mask is
  false, in order.
\<close>

definition compressed :: "'a list \<Rightarrow> bool list \<Rightarrow> 'a list" where
  "compressed xs ms = map fst (filter (\<lambda>(x, m). \<not> m) (zip xs ms))"

text \<open>\<open>collections.deque\<close> with \<open>maxlen\<close>: \<open>append\<close> on a full deque drops the oldest entry.\<close>

definition deque_append :: "nat option \<Rightarrow> 'a list \<Rightarrow> 'a \<Rightarrow> 'a list" where
  "deque_append maxlen q x =
     (case maxlen of
        None \<Rightarrow> q @ [x]
      | Some m \<Rightarrow> if m = 0 then [] else if length q = m then tl q @ [x] else q @ [x])"

definition deque_extend :: "nat option \<Rightarrow> 'a list \<Rightarrow> 'a list \<Rightarrow> 'a list" where
  "deque_extend maxlen q xs = foldl (deque_append maxlen) q xs"

subsection \<open>Strings and paths\<close>

definition digit_char :: "nat \<Rightarrow> char" where
  "digit_char d = ''0123456789'' ! d"

fun str_nat :: "nat \<Rightarrow> string" where
  "str_nat n = (if n < 10 then [digit_char n] else str_nat (n div 10) @ [digit_char (n mod 10)])"

declare str_nat.simps [simp del]

definition str_int :: "int \<Rightarrow> string" where
  "str_int i = (if i < 0 then CHR ''-'' # str_nat (nat (- i)) else str_nat (nat i))"

text \<open>\<open>os.path.join\<close> of two components on a POSIX system.\<close>

definition path_join :: "string \<Rightarrow> string \<Rightarrow> string" where
  "path_join a b =
     (if b \<noteq> [] \<and> hd b = CHR ''/'' then b
      else if a = [] \<or> last a = CHR ''/'' then a @ b
      else a @ ''/'' @ b)"

text \<open>\<open>sep.join(xs)\<close>\<close>

fun join_str :: "string \<Rightarrow> string list \<Rightarrow> string" where
  "join_str sep [] = []"
| "join_str sep [x] = x"
| "join_str sep (x # y # ys) = x @ sep @ join_str sep (y # ys)"

subsection \<open>Files\<close>

text \<open>
  The content of the file \<open>p\<close> after a trace, from its content \<open>c\<close> before
  (\<open>None\<close>: there is no such file). Opening in the mode \<open>a+\<close> creates the file, empty,
  when it is absent and leaves it as it is otherwise; what is written goes to its end.
\<close>

fun file_step :: "string \<Rightarrow> string option \<Rightarrow> event \<Rightarrow> string option" where
  "file_step p c (OpenFile q mode) = (if q = p \<and> mode = ''a+'' \<and> c = None then Some [] else c)"
| "file_step p c (FilePrint q text) = (if q = p then map_option (\<lambda>old. old @ text) c else c)"
| "file_step p c _ = c"

definition file_after :: "string \<Rightarrow> string option \<Rightarrow> event list \<Rightarrow> string option" where
  "file_after p c evs = foldl (file_step p) c evs"

subsection \<open>Replay-buffer helpers (lines 21 to 31)\<close>

text \<open>
  Of the agent only the replay buffer matters here: \<open>None\<close> when the agent has no
  attribute \<open>replay_buffer\<close>, else the length of the buffer.
\<close>

record agent =
  replay_buffer :: "nat option"

definition save_agent_replay_buffer ::
  "agent \<Rightarrow> int \<Rightarrow> string \<Rightarrow> string \<Rightarrow> event list \<times> outcome" where
  "save_agent_replay_buffer ag step dir suffix =
     (let filename = path_join dir (str_int step @ suffix @ ''.replay.pkl'') in
      case replay_buffer ag of
        None \<Rightarrow> ([], Raised AttributeError)
      | Some _ \<Rightarrow> ([ReplayBufferSave filename, LogInfo filename], Returned))"

text \<open>\<open>answer\<close> is what \<open>ask_yes_no\<close> returns when it is called.\<close>

definition ask_and_save_agent_replay_buffer ::
  "agent \<Rightarrow> int \<Rightarrow> string \<Rightarrow> string \<Rightarrow> bool \<Rightarrow> event list \<times> outcome" where
  "ask_and_save_agent_replay_buffer ag step dir suffix answer =
     (case replay_buffer ag of
        None \<Rightarrow> ([], Returned)
      | Some n \<Rightarrow>
          (let question = AskYesNo (''Replay buffer has '' @ str_nat n
                 @ '' transitions. Do you save them to a file?'') in
           if answer
           then (case save_agent_replay_buffer ag step dir suffix of
                   (evs, out) \<Rightarrow> (question # evs, out))
           else ([question], Returned)))"

subsection \<open>Masks (lines 34 to 44 and 107 to 115)\<close>

definition reset_mask_of :: "nat \<Rightarrow> int option \<Rightarrow> int list \<Rightarrow> bool list" where
  "reset_mask_of num_processes mel elen =
     (case mel of
        None \<Rightarrow> replicate num_processes False
      | Some m \<Rightarrow> map (\<lambda>l. l = m) elen)"

text \<open>\<open>for i, reset in zip(info, reset_mask): i['reset'] = reset\<close>\<close>

definition set_reset :: "info list \<Rightarrow> bool list \<Rightarrow> info list" where
  "set_reset infos reset_mask =
     map2 (\<lambda>i reset. AList.update ''reset'' (PyBool reset) i) infos reset_mask
     @ drop (length reset_mask) infos"

definition get_mask ::
  "nat \<Rightarrow> info list \<Rightarrow> bool list \<Rightarrow> int list \<Rightarrow> int option \<Rightarrow> exn + (info list \<times> bool list)" where
  "get_mask num_processes infos dones elen mel =
     (let reset_mask = reset_mask_of num_processes mel elen;
          infos' = set_reset infos reset_mask
      in case logical_or reset_mask dones of
           Inl e \<Rightarrow> Inl e
         | Inr b \<Rightarrow> Inr (infos', logical_not b))"

subsection \<open>One iteration of the loop (lines 102 to 148)\<close>

text \<open>Lines 103 and 105.\<close>

definition act_and_step ::
  "response \<Rightarrow> loop_state \<Rightarrow> ((fval list \<times> bool list \<times> info list) \<times> loop_state) result" where
  "act_and_step rs s =
     then_do (call BatchActAndTrain (act_raises rs) s) (\<lambda>s1.
       case step_result rs of
         Inl e \<Rightarrow> Inl (e, emit EnvStep s1)
       | Inr out \<Rightarrow> Inr (out, emit EnvStep s1))"

text \<open>Lines 107 to 115, on the episode lengths as they are before line 122.\<close>

definition make_masks ::
  "config \<Rightarrow> nat \<Rightarrow> bool list \<Rightarrow> info list \<Rightarrow> loop_state \<Rightarrow> (info list \<times> bool list) result" where
  "make_masks cfg num_processes dones infos s =
     (let reset_mask = reset_mask_of num_processes (max_episode_len cfg) (episode_len s);
          infos' = set_reset infos reset_mask
      in case logical_or reset_mask dones of
           Inl e \<Rightarrow> Inl (e, s)
         | Inr b \<Rightarrow> Inr (infos', logical_not b))"

text \<open>Lines 117 and 119.\<close>

definition reset_and_observe ::
  "response \<Rightarrow> fval list \<Rightarrow> bool list \<Rightarrow> info list \<Rightarrow> bool list \<Rightarrow> loop_state
     \<Rightarrow> loop_state result" where
  "reset_and_observe rs r dones infos' masks s =
     then_do (call (EnvResetMask masks) (reset_raises rs) s)
       (call (BatchObserveAndTrain r dones infos') (observe_raises rs))"

text \<open>
  Lines 121 to 130. A shape error leaves the loop by the handler, which reads only
  \<open>t\<close>; the arrays of the state returned with the error are those before line 121.
\<close>

definition update_episodes ::
  "numerics \<Rightarrow> config \<Rightarrow> nat \<Rightarrow> fval list \<Rightarrow> bool list \<Rightarrow> loop_state \<Rightarrow> loop_state result" where
  "update_episodes fp cfg num_processes r masks s =
     (case inplace (add32 (round32 fp)) (episode_r s) r of
        Inl e \<Rightarrow> Inl (e, s)
      | Inr er \<Rightarrow>
     (let el = map succ32 (episode_len s) in
      case inplace (\<lambda>i m. i + (1 - of_bool m)) (episode_idx s) masks of
        Inl e \<Rightarrow> Inl (e, s)
      | Inr ei \<Rightarrow>
     (case bcast (length er) masks of
        Inl e \<Rightarrow> Inl (e, s)
      | Inr ms \<Rightarrow>
          Inr (s\<lparr>episode_r := map2 mul_mask er ms,
                 episode_len := map2 (\<lambda>l m. l * of_bool m) el ms,
                 episode_idx := ei,
                 recent_returns :=
                   deque_extend (return_window_size cfg) (recent_returns s) (compressed er ms),
                 global_t := global_t s + int num_processes\<rparr>))))"

text \<open>Lines 132 and 133.\<close>

fun run_hooks :: "response \<Rightarrow> nat list \<Rightarrow> loop_state \<Rightarrow> loop_state result" where
  "run_hooks rs [] s = Inr s"
| "run_hooks rs (h # hs) s =
     then_do (call (StepHook h (global_t s)) (hook_raises rs h) s) (run_hooks rs hs)"

text \<open>
  \<open>t % log_interval == 0\<close>: a \<open>TypeError\<close> when \<open>log_interval\<close> is \<open>None\<close>, a
  \<open>ZeroDivisionError\<close> when it is zero.
\<close>

definition at_log_interval :: "int \<Rightarrow> int option \<Rightarrow> exn + bool" where
  "at_log_interval step li =
     (case li of
        None \<Rightarrow> Inl TypeError
      | Some l \<Rightarrow> if l = 0 then Inl ZeroDivisionError else Inr (step mod l = 0))"

text \<open>
  Lines 47 to 49: the file is opened in the mode \<open>a+\<close>, and \<open>print\<close> writes the two
  strings joined by a tab, then a newline. \<open>raises\<close> is \<open>open\<close> raising, which leaves
  the file system as it is.
\<close>

definition write_to_file ::
  "numerics \<Rightarrow> string \<Rightarrow> int \<Rightarrow> fval \<Rightarrow> exn option \<Rightarrow> loop_state \<Rightarrow> loop_state result" where
  "write_to_file fp dir step avg_r raises s =
     (let path = path_join dir ''training_r.txt'' in
      case raises of
        Some e \<Rightarrow> Inl (e, emit (OpenFailed path ''a+'') s)
      | None \<Rightarrow>
          Inr (emit (FilePrint path
                       (join_str [CHR 0x09] [str_int step, str_fval fp avg_r] @ [CHR 0x0A]))
                 (emit (OpenFile path ''a+'') s)))"

text \<open>Lines 135 and 136.\<close>

definition log_training_r ::
  "numerics \<Rightarrow> config \<Rightarrow> response \<Rightarrow> loop_state \<Rightarrow> loop_state result" where
  "log_training_r fp cfg rs s =
     (if save_training_r cfg
      then (case at_log_interval (global_t s) (log_interval cfg) of
              Inl e \<Rightarrow> Inl (e, s)
            | Inr due \<Rightarrow>
                if due
                then write_to_file fp (outdir cfg) (global_t s) (np_mean fp (recent_returns s))
                       (write_raises rs) s
                else Inr s)
      else Inr s)"

text \<open>Lines 138 to 148; the boolean of the result is \<open>break\<close>.\<close>

definition log_and_evaluate ::
  "numerics \<Rightarrow> config \<Rightarrow> response \<Rightarrow> loop_state \<Rightarrow> (bool \<times> loop_state) result" where
  "log_and_evaluate fp cfg rs s =
     (if eval_interval cfg \<noteq> None
      then (case at_log_interval (global_t s) (log_interval cfg) of
              Inl e \<Rightarrow> Inl (e, s)
            | Inr due \<Rightarrow>
                if due
                then
                  (let s1 = emit (LogProgress (outdir cfg) (global_t s)
                                    (np_mean fp (recent_returns s))
                                    (sum_list (map sint (episode_idx s)))) s
                   in then_do (call GetStatistics (statistics_raises rs) s1) (\<lambda>s2.
                        let s3 = emit LogStatistics s2 in
                        case evaluator cfg of
                          None \<Rightarrow> Inr (False, s3)
                        | Some ev \<Rightarrow>
                            (let s4 = emit (EvaluateIfNecessary (global_t s)
                                              (map (\<lambda>i. i + 1) (episode_idx s))) s3
                             in case evaluate_result rs of
                                  Inl e \<Rightarrow> Inl (e, s4)
                                | Inr max_score \<Rightarrow>
                                    Inr ((case successful_score cfg of
                                            None \<Rightarrow> False
                                          | Some score \<Rightarrow> max_score \<ge> score), s4))))
                else Inr (False, s))
      else Inr (False, s))"

definition iteration ::
  "numerics \<Rightarrow> config \<Rightarrow> nat \<Rightarrow> response \<Rightarrow> loop_state \<Rightarrow> (bool \<times> loop_state) result" where
  "iteration fp cfg num_processes rs s =
     then_do (act_and_step rs s) (\<lambda>((r, dones, infos), s2).
     then_do (make_masks cfg num_processes dones infos s2) (\<lambda>(infos', masks).
     then_do (reset_and_observe rs r dones infos' masks s2) (\<lambda>s3.
     then_do (update_episodes fp cfg num_processes r masks s3) (\<lambda>s4.
     then_do (run_hooks rs (step_hooks cfg) s4) (\<lambda>s5.
     then_do (log_training_r fp cfg rs s5) (\<lambda>s6.
     log_and_evaluate fp cfg rs s6))))))"

subsection \<open>The loop and \<open>train_agent_batch\<close> (lines 52 to 159)\<close>

text \<open>
  \<open>while t < steps\<close>. Each iteration consumes one response; \<open>None\<close> is a loop that
  wants another iteration when the responses given are used up.
\<close>

fun while_loop ::
  "numerics \<Rightarrow> config \<Rightarrow> nat \<Rightarrow> response list \<Rightarrow> loop_state \<Rightarrow> (loop_state result) option" where
  "while_loop fp cfg num_processes [] s =
     (if global_t s < steps cfg then None else Some (Inr s))"
| "while_loop fp cfg num_processes (rs # rest) s =
     (if global_t s < steps cfg
      then (case iteration fp cfg num_processes rs s of
              Inl x \<Rightarrow> Some (Inl x)
            | Inr (brk, s') \<Rightarrow>
                if brk then Some (Inr s') else while_loop fp cfg num_processes rest s')
      else Some (Inr s))"

text \<open>Lines 88 to 98.\<close>

definition initial_state :: "config \<Rightarrow> world \<Rightarrow> nat \<Rightarrow> loop_state" where
  "initial_state cfg w num_processes =
     \<lparr>global_t = step_offset cfg,
      episode_r = replicate num_processes (Num 0),
      episode_idx = replicate num_processes 0,
      episode_len = replicate num_processes 0,
      recent_returns = [],
      trace = EnvReset # (if agent_has_t w then [SetAgentT (step_offset cfg)] else [])\<rparr>"

text \<open>Lines 150 to 156. A raise of \<open>save_agent\<close> or of \<open>close\<close> leaves the handler.\<close>

definition except_handler ::
  "config \<Rightarrow> world \<Rightarrow> exn \<Rightarrow> loop_state \<Rightarrow> event list \<times> outcome" where
  "except_handler cfg w e s =
     (let evs1 = trace s @ [SaveAgent (global_t s) ''_except''] in
      case save_agent_raises w of
        Some e' \<Rightarrow> (evs1, Raised e')
      | None \<Rightarrow>
     (let evs2 = evs1 @ [EnvClose (env cfg)] in
      case env_close_raises w of
        Some e' \<Rightarrow> (evs2, Raised e')
      | None \<Rightarrow>
     (case evaluator cfg of
        None \<Rightarrow> (evs2, Raised e)
      | Some ev \<Rightarrow>
          (let evs3 = evs2 @ [EnvClose (eval_env ev)] in
           case eval_env_close_raises w of
             Some e' \<Rightarrow> (evs3, Raised e')
           | None \<Rightarrow> (evs3, Raised e)))))"

text \<open>Lines 157 to 159.\<close>

definition finish :: "world \<Rightarrow> loop_state \<Rightarrow> event list \<times> outcome" where
  "finish w s =
     (let evs = trace s @ [SaveAgent (global_t s) ''_finish''] in
      case save_agent_raises w of
        Some e' \<Rightarrow> (evs, Raised e')
      | None \<Rightarrow> (evs, Returned))"

definition train_agent_batch :: "config \<Rightarrow> world \<Rightarrow> (event list \<times> outcome) option" where
  "train_agent_batch cfg w =
     (case num_envs w of
        Inl e \<Rightarrow> Some (if e = AttributeError then [LogError] else [], Raised e)
      | Inr num_processes \<Rightarrow>
     (case initial_reset_raises w of
        Some e \<Rightarrow> Some ([EnvReset], Raised e)
      | None \<Rightarrow>
     (case while_loop (platform w) cfg num_processes (responses w)
             (initial_state cfg w num_processes) of
        None \<Rightarrow> None
      | Some (Inl (e, s)) \<Rightarrow>
          Some (if caught e then except_handler cfg w e s else (trace s, Raised e))
      | Some (Inr s) \<Rightarrow> Some (finish w s))))"

subsection \<open>Notions used to state the properties\<close>

text \<open>Everything of the loop state but the trace.\<close>

definition data_of :: "loop_state \<Rightarrow> int \<times> fval list \<times> 32 word list \<times> int list \<times> fval list" where
  "data_of s = (global_t s, episode_r s, episode_idx s, episode_len s, recent_returns s)"

text \<open>The three arrays of lines 88 to 90 have one entry per instance.\<close>

definition wf_state :: "nat \<Rightarrow> loop_state \<Rightarrow> bool" where
  "wf_state n s =
     (length (episode_r s) = n \<and> length (episode_idx s) = n \<and> length (episode_len s) = n)"

text \<open>
  The entries of \<open>episode_len\<close> are whole numbers from 0 to \<open>2^24\<close>, the range on
  which \<open>succ32\<close> is the \<open>float32\<close> increment.
\<close>

definition counters_ok :: "loop_state \<Rightarrow> bool" where
  "counters_ok s = list_all (\<lambda>l. 0 \<le> l \<and> l \<le> 2 ^ 24) (episode_len s)"

text \<open>The deque of line 79 never holds more than \<open>maxlen\<close> entries.\<close>

definition window_ok :: "config \<Rightarrow> loop_state \<Rightarrow> bool" where
  "window_ok cfg s =
     (case return_window_size cfg of
        None \<Rightarrow> True
      | Some m \<Rightarrow> length (recent_returns s) \<le> m)"

text \<open>
  The conditions of lines 138, 143, 146 and 147 under which \<open>break\<close> is reached, at the
  value \<open>step\<close> of \<open>t\<close> after line 130.
\<close>

definition early_success :: "config \<Rightarrow> response \<Rightarrow> int \<Rightarrow> bool" where
  "early_success cfg rs step =
     (eval_interval cfg \<noteq> None \<and> at_log_interval step (log_interval cfg) = Inr True
      \<and> evaluator cfg \<noteq> None
      \<and> (case successful_score cfg of
            None \<Rightarrow> False
          | Some score \<Rightarrow>
              (case evaluate_result rs of Inl _ \<Rightarrow> False | Inr max_score \<Rightarrow> max_score \<ge> score)))"

text \<open>
  A platform without rounding, for the concrete runs below, whose rewards are small
  whole numbers or special values, on which \<open>float32\<close> is exact as well. Its \<open>str\<close>
  is that of a whole number.
\<close>

definition exact_mean :: "fval list \<Rightarrow> fval" where
  "exact_mean xs =
     (case foldl (add32 Num) (Num 0) xs of
        Num sm \<Rightarrow> Num (sm / real (length xs))
      | v \<Rightarrow> v)"

definition exact_numerics :: numerics where
  "exact_numerics =
     \<lparr>round32 = Num, mean32 = exact_mean, repr_float = (\<lambda>x. str_int \<lfloor>x\<rfloor> @ ''.0'')\<rparr>"

text \<open>
  The defaults of the keyword arguments (lines 52 to 56), and collaborators that never
  raise: they give the concrete runs below.
\<close>

definition default_config :: "env_ref \<Rightarrow> int \<Rightarrow> string \<Rightarrow> config" where
  "default_config e n_steps dir =
     \<lparr>env = e, steps = n_steps, outdir = dir, log_interval = None, max_episode_len = None,
      eval_interval = None, step_offset = 0, evaluator = None, successful_score = None,
      step_hooks = [], return_window_size = Some 100, save_training_r = False\<rparr>"

definition quiet_response :: "fval list \<Rightarrow> bool list \<Rightarrow> response" where
  "quiet_response r dones =
     \<lparr>act_raises = None, step_result = Inr (r, dones, replicate (length r) []),
      reset_raises = None, observe_raises = None, hook_raises = (\<lambda>_. None),
      write_raises = None, statistics_raises = None, evaluate_result = Inr 0\<rparr>"

definition quiet_world :: "nat \<Rightarrow> response list \<Rightarrow> world" where
  "quiet_world n rss =
     \<lparr>platform = exact_numerics, num_envs = Inr n, agent_has_t = True,
      initial_reset_raises = None, responses = rss,
      save_agent_raises = None, env_close_raises = None, eval_env_close_raises = None\<rparr>"

text \<open>
  Concrete runs: the two-instance scenario on any platform, a run that logs before any
  episode has ended, a run with \<open>max_episode_len = 1\<close> and no done signal, a run whose
  first \<open>env.step\<close> is interrupted, the same with a \<open>save_agent\<close> that raises, a run
  with an infinite reward, and a run that meets the successful score.
\<close>

definition scenario_config :: config where
  "scenario_config = default_config 0 4 ''out''"

definition scenario_world :: "numerics \<Rightarrow> fval \<Rightarrow> fval \<Rightarrow> fval \<Rightarrow> fval \<Rightarrow> world" where
  "scenario_world fp a0 a1 b0 b1 =
     (quiet_world 2 [quiet_response [a0, a1] [False, True], quiet_response [b0, b1] [True, False]])
       \<lparr>platform := fp\<rparr>"

definition empty_window_config :: config where
  "empty_window_config = (default_config 0 1 ''out'')\<lparr>log_interval := Some 1, save_training_r := True\<rparr>"

definition empty_window_world :: world where
  "empty_window_world = quiet_world 1 [quiet_response [Num 1] [False]]"

definition truncation_config :: config where
  "truncation_config = (default_config 0 2 ''out'')\<lparr>max_episode_len := Some 1\<rparr>"

definition truncation_world :: world where
  "truncation_world = quiet_world 1 [quiet_response [Num 1] [False], quiet_response [Num 1] [False]]"

definition interrupted_config :: config where
  "interrupted_config = (default_config 0 4 ''out'')\<lparr>evaluator := Some \<lparr>eval_env = 1\<rparr>\<rparr>"

definition interrupted_world :: world where
  "interrupted_world =
     quiet_world 2 [(quiet_response [] [])\<lparr>step_result := Inl KeyboardInterrupt\<rparr>]"

definition failed_save_world :: world where
  "failed_save_world = interrupted_world\<lparr>save_agent_raises := Some (OtherException 0)\<rparr>"

definition infinite_reward_config :: config where
  "infinite_reward_config = default_config 0 1 ''out''"

definition infinite_reward_world :: world where
  "infinite_reward_world = quiet_world 1 [quiet_response [PInf] [True]]"

definition early_success_config :: config where
  "early_success_config =
     (default_config 0 100 ''out'')
       \<lparr>log_interval := Some 2, eval_interval := Some 2,
        evaluator := Some \<lparr>eval_env = 1\<rparr>, successful_score := Some 1\<rparr>"

definition early_success_world :: world where
  "early_success_world =
     quiet_world 2 [(quiet_response [Num 1, Num 2] [False, False])\<lparr>evaluate_result := Inr 5\<rparr>]"

section \<open>Properties\<close>

lemma then_do_Inl [simp]: "then_do (Inl x) f = Inl x"
  by (simp add: then_do_def)

lemma then_do_Inr [simp]: "then_do (Inr a) f = f a"
  by (simp add: then_do_def)

lemma then_do_eq_Inr: "then_do m f = Inr y \<longleftrightarrow> (\<exists>a. m = Inr a \<and> f a = Inr y)"
  by (cases m) simp_all

lemma trace_emit [simp]: "trace (emit ev s) = trace s @ [ev]"
  by (simp add: emit_def)

lemma data_of_emit [simp]: "data_of (emit ev s) = data_of s"
  by (simp add: emit_def data_of_def)

lemma global_t_emit [simp]: "global_t (emit ev s) = global_t s"
  by (simp add: emit_def)

lemma episode_len_emit [simp]: "episode_len (emit ev s) = episode_len s"
  by (simp add: emit_def)

lemma call_eq_Inr: "call ev x s = Inr s' \<longleftrightarrow> x = None \<and> s' = emit ev s"
  by (auto simp: call_def split: option.splits)

lemma file_after_Nil [simp]: "file_after p c [] = c"
  by (simp add: file_after_def)

lemma file_after_append [simp]:
  "file_after p c (xs @ ys) = file_after p (file_after p c xs) ys"
  by (simp add: file_after_def)

lemma file_after_Cons [simp]: "file_after p c (ev # evs) = file_after p (file_step p c ev) evs"
  by (simp add: file_after_def)

lemma mul_mask_True [simp]: "mul_mask v True = v"
  by (cases v) simp_all

lemma bcast_same [simp]: "length ys = n \<Longrightarrow> bcast n ys = Inr ys"
  by (simp add: bcast_def)

lemma inplace_same [simp]: "length ys = length xs \<Longrightarrow> inplace f xs ys = Inr (map2 f xs ys)"
  by (simp add: inplace_def)

lemma logical_or_same [simp]:
  "length xs = length ys \<Longrightarrow> logical_or xs ys = Inr (map2 (\<or>) xs ys)"
  by (simp add: logical_or_def)

lemma length_reset_mask_of [simp]:
  "length elen = n \<Longrightarrow> length (reset_mask_of n mel elen) = n"
  by (simp add: reset_mask_of_def split: option.splits)

lemma act_and_step_eq_Inr:
  "act_and_step rs s = Inr (out, s2) \<longleftrightarrow>
     act_raises rs = None \<and> step_result rs = Inr out
     \<and> s2 = emit EnvStep (emit BatchActAndTrain s)"
  by (auto simp: act_and_step_def then_do_eq_Inr call_eq_Inr split: sum.splits)

lemma make_masks_wf:
  assumes "length dones = n" and "length (episode_len s) = n"
  shows "make_masks cfg n dones infos s =
           Inr (set_reset infos (reset_mask_of n (max_episode_len cfg) (episode_len s)),
                map2 (\<lambda>reset d. \<not> (reset \<or> d))
                  (reset_mask_of n (max_episode_len cfg) (episode_len s)) dones)"
  using assms by (auto simp: make_masks_def Let_def logical_not_def)

lemma get_mask_wf:
  assumes "length dones = n" and "length elen = n"
  shows "get_mask n infos dones elen mel =
           Inr (set_reset infos (reset_mask_of n mel elen),
                map2 (\<lambda>reset d. \<not> (reset \<or> d)) (reset_mask_of n mel elen) dones)"
  using assms by (auto simp: get_mask_def Let_def logical_not_def)

lemma reset_and_observe_eq_Inr:
  "reset_and_observe rs r dones infos' masks s = Inr s3 \<longleftrightarrow>
     reset_raises rs = None \<and> observe_raises rs = None
     \<and> s3 = emit (BatchObserveAndTrain r dones infos') (emit (EnvResetMask masks) s)"
  by (auto simp: reset_and_observe_def then_do_eq_Inr call_eq_Inr)

lemma update_episodes_global_t:
  "update_episodes fp cfg n r masks s = Inr s4 \<Longrightarrow>
     global_t s4 = global_t s + int n \<and> trace s4 = trace s"
  by (auto simp: update_episodes_def Let_def split: sum.splits)

lemma update_episodes_wf:
  assumes "wf_state n s" and "length r = n" and "length masks = n"
  shows "update_episodes fp cfg n r masks s =
           Inr (s\<lparr>episode_r := map2 mul_mask (map2 (add32 (round32 fp)) (episode_r s) r) masks,
                  episode_len := map2 (\<lambda>l m. l * of_bool m) (map succ32 (episode_len s)) masks,
                  episode_idx := map2 (\<lambda>i m. i + (1 - of_bool m)) (episode_idx s) masks,
                  recent_returns :=
                    deque_extend (return_window_size cfg) (recent_returns s)
                      (compressed (map2 (add32 (round32 fp)) (episode_r s) r) masks),
                  global_t := global_t s + int n\<rparr>)"
  using assms by (simp add: update_episodes_def wf_state_def Let_def)

lemma run_hooks_Inr:
  "run_hooks rs hs s = Inr s' \<Longrightarrow>
     data_of s' = data_of s \<and> trace s' = trace s @ map (\<lambda>h. StepHook h (global_t s)) hs"
proof (induction hs arbitrary: s)
  case Nil
  then show ?case by simp
next
  case (Cons h hs)
  from Cons.prems obtain s1 where s1: "s1 = emit (StepHook h (global_t s)) s"
    and rest: "run_hooks rs hs s1 = Inr s'"
    by (auto simp: then_do_eq_Inr call_eq_Inr)
  from Cons.IH [OF rest] show ?case by (simp add: s1)
qed

lemma log_training_r_Inr:
  assumes "log_training_r fp cfg rs s = Inr s'"
  shows "data_of s' = data_of s"
    and "trace s' = trace s @
           (if save_training_r cfg \<and> at_log_interval (global_t s) (log_interval cfg) = Inr True
            then [OpenFile (path_join (outdir cfg) ''training_r.txt'') ''a+'',
                  FilePrint (path_join (outdir cfg) ''training_r.txt'')
                    (str_int (global_t s) @ [CHR 0x09]
                       @ str_fval fp (np_mean fp (recent_returns s)) @ [CHR 0x0A])]
            else [])"
    and "save_training_r cfg \<Longrightarrow> \<exists>due. at_log_interval (global_t s) (log_interval cfg) = Inr due"
  using assms
  by (auto simp: log_training_r_def write_to_file_def Let_def split: if_splits sum.splits option.splits)

lemma log_and_evaluate_Inr:
  assumes "log_and_evaluate fp cfg rs s = Inr (brk, s')"
  shows "data_of s' = data_of s"
    and "file_after p c (trace s') = file_after p c (trace s)"
    and "brk \<longleftrightarrow> early_success cfg rs (global_t s)"
    and "\<exists>evs. trace s' = trace s @ evs"
  using assms
  by (auto simp: log_and_evaluate_def early_success_def Let_def then_do_eq_Inr call_eq_Inr
           split: if_splits sum.splits option.splits)

lemma make_masks_emit:
  "make_masks cfg n dones infos (emit ev s) = Inr x \<longleftrightarrow> make_masks cfg n dones infos s = Inr x"
  by (simp add: make_masks_def Let_def split: sum.splits)

lemma iteration_Inr:
  assumes "iteration fp cfg n rs s = Inr (brk, s')"
  obtains r dones infos infos' masks s3 s4 s5 s6 where
    "act_raises rs = None" and "step_result rs = Inr (r, dones, infos)"
    and "make_masks cfg n dones infos s = Inr (infos', masks)"
    and "reset_raises rs = None" and "observe_raises rs = None"
    and "s3 = emit (BatchObserveAndTrain r dones infos') (emit (EnvResetMask masks)
                 (emit EnvStep (emit BatchActAndTrain s)))"
    and "update_episodes fp cfg n r masks s3 = Inr s4"
    and "run_hooks rs (step_hooks cfg) s4 = Inr s5"
    and "log_training_r fp cfg rs s5 = Inr s6"
    and "log_and_evaluate fp cfg rs s6 = Inr (brk, s')"
  using assms
  by (auto simp: iteration_def then_do_eq_Inr act_and_step_eq_Inr reset_and_observe_eq_Inr
        make_masks_emit split: prod.splits)

lemma iteration_global_t:
  assumes "iteration fp cfg n rs s = Inr (brk, s')"
  shows "global_t s' = global_t s + int n"
proof -
  from assms obtain r dones infos' masks s3 s4 s5 s6 where
    s3: "s3 = emit (BatchObserveAndTrain r dones infos') (emit (EnvResetMask masks)
                 (emit EnvStep (emit BatchActAndTrain s)))"
    and upd: "update_episodes fp cfg n r masks s3 = Inr s4"
    and hooks: "run_hooks rs (step_hooks cfg) s4 = Inr s5"
    and wr: "log_training_r fp cfg rs s5 = Inr s6"
    and ev: "log_and_evaluate fp cfg rs s6 = Inr (brk, s')"
    by (elim iteration_Inr) blast
  have "data_of s' = data_of s4"
    using run_hooks_Inr [OF hooks] log_training_r_Inr(1) [OF wr] log_and_evaluate_Inr(1) [OF ev]
    by simp
  then have "global_t s' = global_t s4" by (simp add: data_of_def)
  with update_episodes_global_t [OF upd] s3 show ?thesis by simp
qed

lemma iteration_break:
  assumes "iteration fp cfg n rs s = Inr (True, s')"
  shows "early_success cfg rs (global_t s')"
proof -
  from assms obtain s6 where ev: "log_and_evaluate fp cfg rs s6 = Inr (True, s')"
    by (elim iteration_Inr)
  from log_and_evaluate_Inr(1) [OF ev] have "global_t s' = global_t s6"
    by (simp add: data_of_def)
  with log_and_evaluate_Inr(3) [OF ev] show ?thesis by simp
qed

lemma compressed_nth:
  assumes "length ms = length xs"
  shows "compressed xs ms = map (\<lambda>i. xs ! i) (filter (\<lambda>i. \<not> ms ! i) [0..<length xs])"
proof -
  have "zip xs ms = map (\<lambda>i. (xs ! i, ms ! i)) [0..<length xs]"
    by (rule nth_equalityI) (use assms in simp_all)
  then show ?thesis
    by (simp add: compressed_def filter_map comp_def)
qed

lemmas loop_defs =
  iteration_def act_and_step_def make_masks_def reset_and_observe_def update_episodes_def
  log_training_r_def log_and_evaluate_def at_log_interval_def write_to_file_def
  then_do_def call_def emit_def reset_mask_of_def set_reset_def logical_or_def logical_not_def
  inplace_def bcast_def compressed_def deque_extend_def deque_append_def path_join_def
  np_mean_def str_fval_def succ32_def

lemmas scenario_defs =
  default_config_def quiet_response_def quiet_world_def initial_state_def exact_numerics_def

lemmas run_defs =
  scenario_defs loop_defs train_agent_batch_def finish_def except_handler_def Let_def
  eval_nat_numeral

text \<open>
  Claim C3. When \<open>env.step\<close> returns one done flag per instance, the continuation
  mask, as line 115 and as \<open>_get_mask\<close> compute it, has one entry per instance, and
  entry \<open>i\<close> is true iff instance \<open>i\<close> is neither done nor forced to reset; this is
  the mask that \<open>env.reset\<close> receives in that iteration.
\<close>

theorem continuation_mask_negates_done_or_reset:
  assumes "length dones = n" and "length (episode_len s) = n"
  shows "\<exists>infos' masks.
           make_masks cfg n dones infos s = Inr (infos', masks)
           \<and> get_mask n infos dones (episode_len s) (max_episode_len cfg) = Inr (infos', masks)
           \<and> length masks = n
           \<and> (\<forall>i<n. masks ! i
                 = (\<not> (dones ! i \<or> reset_mask_of n (max_episode_len cfg) (episode_len s) ! i)))
           \<and> (\<forall>fp rs r brk s'. step_result rs = Inr (r, dones, infos)
                 \<and> iteration fp cfg n rs s = Inr (brk, s')
                 \<longrightarrow> EnvResetMask masks \<in> set (trace s'))"
proof -
  let ?reset = "reset_mask_of n (max_episode_len cfg) (episode_len s)"
  let ?masks = "map2 (\<lambda>reset d. \<not> (reset \<or> d)) ?reset dones"
  let ?infos = "set_reset infos ?reset"
  have mk: "make_masks cfg n dones infos s = Inr (?infos, ?masks)"
    using assms by (rule make_masks_wf)
  have gm: "get_mask n infos dones (episode_len s) (max_episode_len cfg) = Inr (?infos, ?masks)"
    using assms by (rule get_mask_wf)
  have len: "length ?masks = n"
    using assms by simp
  have nth: "\<forall>i<n. ?masks ! i = (\<not> (dones ! i \<or> ?reset ! i))"
    using assms by auto
  have used: "EnvResetMask ?masks \<in> set (trace s')"
    if "step_result rs = Inr (r, dones, infos)" and "iteration fp cfg n rs s = Inr (brk, s')"
    for fp rs r brk s'
  proof -
    from that(2) obtain r' dones' infos' infos'' masks s3 s4 s5 s6 where
      out: "step_result rs = Inr (r', dones', infos')"
      and mk': "make_masks cfg n dones' infos' s = Inr (infos'', masks)"
      and s3: "s3 = emit (BatchObserveAndTrain r' dones' infos'') (emit (EnvResetMask masks)
                 (emit EnvStep (emit BatchActAndTrain s)))"
      and upd: "update_episodes fp cfg n r' masks s3 = Inr s4"
      and hooks: "run_hooks rs (step_hooks cfg) s4 = Inr s5"
      and wr: "log_training_r fp cfg rs s5 = Inr s6"
      and ev: "log_and_evaluate fp cfg rs s6 = Inr (brk, s')"
      by (elim iteration_Inr) blast
    from out that(1) mk mk' have masks: "masks = ?masks" by simp
    have "EnvResetMask masks \<in> set (trace s3)" by (simp add: s3)
    moreover have "trace s4 = trace s3"
      using update_episodes_global_t [OF upd] by simp
    moreover have "set (trace s4) \<subseteq> set (trace s5)"
      using run_hooks_Inr [OF hooks] by auto
    moreover have "set (trace s5) \<subseteq> set (trace s6)"
      using log_training_r_Inr(2) [OF wr] by auto
    moreover have "set (trace s6) \<subseteq> set (trace s')"
      using log_and_evaluate_Inr(4) [OF ev] by auto
    ultimately have "EnvResetMask masks \<in> set (trace s')" by auto
    then show ?thesis by (simp only: masks)
  qed
  from mk gm len nth used show ?thesis by blast
qed

theorem continuation_mask_negates_done_or_reset_witness:
  "length [False, True] = 2
   \<and> length (episode_len (initial_state (default_config 0 4 ''out'') (quiet_world 2 []) 2)) = 2
   \<and> (\<exists>infos'. get_mask 2 [[], []] [False, True] [0, 0] None = Inr (infos', [True, False]))"
proof -
  let ?s = "initial_state (default_config 0 4 ''out'') (quiet_world 2 []) 2"
  have h1: "length [False, True] = 2" by simp
  have h2: "length (episode_len ?s) = 2" by (simp add: scenario_defs)
  from continuation_mask_negates_done_or_reset [OF h1 h2, of "default_config 0 4 ''out''" "[[], []]"]
  obtain infos' masks where
    gm: "get_mask 2 [[], []] [False, True] (episode_len ?s)
           (max_episode_len (default_config 0 4 ''out'')) = Inr (infos', masks)"
    by blast
  have "get_mask 2 [[], []] [False, True] (episode_len ?s)
           (max_episode_len (default_config 0 4 ''out''))
        = Inr ([[(''reset'', PyBool False)], [(''reset'', PyBool False)]], [True, False])"
    by (simp add: scenario_defs get_mask_def loop_defs Let_def eval_nat_numeral)
  with gm have "masks = [True, False]" by simp
  with gm h1 h2 show ?thesis by (auto simp: scenario_defs eval_nat_numeral)
qed

subsection \<open>Episode bookkeeping\<close>

lemma deque_extend_unbounded: "deque_extend None q xs = q @ xs"
  by (induction xs arbitrary: q) (simp_all add: deque_extend_def deque_append_def)

lemma deque_append_bounded:
  assumes "length q \<le> m"
  shows "deque_append (Some m) q x = drop (Suc (length q) - m) (q @ [x])"
proof (cases "length q = m")
  case True
  then show ?thesis
    by (cases q) (simp_all add: deque_append_def)
next
  case False
  with assms have "length q < m" by simp
  then show ?thesis by (simp add: deque_append_def)
qed

lemma deque_extend_bounded:
  assumes "length q \<le> m"
  shows "deque_extend (Some m) q xs = drop (length q + length xs - m) (q @ xs)"
  using assms
proof (induction xs arbitrary: q)
  case Nil
  then show ?case by (simp add: deque_extend_def)
next
  case (Cons x xs)
  let ?q = "deque_append (Some m) q x"
  have q': "?q = drop (Suc (length q) - m) (q @ [x])"
    using Cons.prems by (rule deque_append_bounded)
  have len: "length ?q \<le> m"
    using Cons.prems by (simp add: q')
  have "deque_extend (Some m) q (x # xs) = deque_extend (Some m) ?q xs"
    by (simp add: deque_extend_def)
  also have "\<dots> = drop (length ?q + length xs - m) (?q @ xs)"
    using len by (rule Cons.IH)
  also have "\<dots> = drop (length q + length (x # xs) - m) (q @ x # xs)"
  proof (cases "length q = m")
    case True
    show ?thesis
    proof (cases "m = 0")
      case True
      with \<open>length q = m\<close> show ?thesis by (simp add: q')
    next
      case False
      with \<open>length q = m\<close> have "?q @ xs = drop 1 (q @ x # xs)" and "length ?q = m"
        by (simp_all add: q')
      with \<open>length q = m\<close> False show ?thesis by simp
    qed
  next
    case False
    with Cons.prems have "length q < m" by simp
    then show ?thesis by (simp add: q')
  qed
  finally show ?case .
qed

text \<open>
  A reward of plus infinity in a step that ends the episode: the return recorded is
  infinite, and \<open>episode_r\<close> is left at not-a-number, since line 128 resets by
  multiplying with zero.
\<close>

theorem infinite_return_is_not_reset:
  "iteration exact_numerics infinite_reward_config 1 (quiet_response [PInf] [True])
     (initial_state infinite_reward_config infinite_reward_world 1)
   = Inr (False,
          \<lparr>global_t = 1, episode_r = [NaN], episode_idx = [1], episode_len = [0],
           recent_returns = [PInf],
           trace = [EnvReset, SetAgentT 0, BatchActAndTrain, EnvStep, EnvResetMask [False],
                    BatchObserveAndTrain [PInf] [True] [[(''reset'', PyBool False)]]]\<rparr>)"
  by (simp add: infinite_reward_config_def infinite_reward_world_def run_defs)

text \<open>The same on every platform: no rounding takes part in it.\<close>

lemma infinite_return_on_any_platform:
  "\<exists>s'. iteration fp infinite_reward_config 1 (quiet_response [PInf] [True])
           (initial_state infinite_reward_config infinite_reward_world 1) = Inr (False, s')
        \<and> episode_r s' = [NaN] \<and> recent_returns s' = [PInf]"
  by (simp add: infinite_reward_config_def infinite_reward_world_def run_defs)

lemma episode_len_stops_at_2_24: "succ32 (2 ^ 24) = 2 ^ 24" and "succ32 (2 ^ 24 - 1) = 2 ^ 24"
  by (simp_all add: succ32_def)

text \<open>
  Claim C4, amended. In an iteration that completes, the returns of the slots whose mask
  is false, this step's reward included (added in \<open>float32\<close>), are appended to the
  recent-returns window in slot order, the window keeping its last
  \<open>return_window_size\<close> entries. Such a slot has \<open>episode_len\<close> back at 0, its
  \<open>episode_idx\<close> one higher (in \<open>int32\<close> arithmetic), and \<open>episode_r\<close> back at 0 when
  its return is finite, at not-a-number when the return is infinite or not-a-number. A
  slot whose mask is true has its reward added, its \<open>episode_idx\<close> unchanged, and its
  length one higher as long as the length is below \<open>2^24\<close>, where the \<open>float32\<close>
  counter stops. The shape of the arrays, the bound of the window and the range of the
  lengths hold again after the iteration.
\<close>

theorem episode_bookkeeping:
  assumes wf: "wf_state n s" and win: "window_ok cfg s" and cnt: "counters_ok s"
    and out: "step_result rs = Inr (r, dones, infos)"
    and len: "length r = n" "length dones = n"
    and mk: "make_masks cfg n dones infos s = Inr (infos', masks)"
    and it: "iteration fp cfg n rs s = Inr (brk, s')"
  shows "recent_returns s'
           = (let ended = map (\<lambda>i. add32 (round32 fp) (episode_r s ! i) (r ! i))
                            (filter (\<lambda>i. \<not> masks ! i) [0..<n]);
                  appended = recent_returns s @ ended
              in case return_window_size cfg of
                   None \<Rightarrow> appended
                 | Some m \<Rightarrow> drop (length appended - m) appended)
         \<and> wf_state n s' \<and> window_ok cfg s' \<and> counters_ok s'
         \<and> (\<forall>i<n. if masks ! i
                then episode_r s' ! i = add32 (round32 fp) (episode_r s ! i) (r ! i)
                     \<and> episode_len s' ! i
                         = (if episode_len s ! i < 2 ^ 24 then episode_len s ! i + 1
                            else episode_len s ! i)
                     \<and> episode_idx s' ! i = episode_idx s ! i
                else episode_r s' ! i
                       = (case add32 (round32 fp) (episode_r s ! i) (r ! i) of
                            Num _ \<Rightarrow> Num 0 | _ \<Rightarrow> NaN)
                     \<and> episode_len s' ! i = 0
                     \<and> episode_idx s' ! i = episode_idx s ! i + 1)"
proof -
  from it obtain r' dones' infos0 infos'' masks' s3 s4 s5 s6 where
    out': "step_result rs = Inr (r', dones', infos0)"
    and mk': "make_masks cfg n dones' infos0 s = Inr (infos'', masks')"
    and s3: "s3 = emit (BatchObserveAndTrain r' dones' infos'') (emit (EnvResetMask masks')
               (emit EnvStep (emit BatchActAndTrain s)))"
    and upd: "update_episodes fp cfg n r' masks' s3 = Inr s4"
    and hooks: "run_hooks rs (step_hooks cfg) s4 = Inr s5"
    and wr: "log_training_r fp cfg rs s5 = Inr s6"
    and ev: "log_and_evaluate fp cfg rs s6 = Inr (brk, s')"
    by (elim iteration_Inr) blast
  from out out' mk mk' have eqs: "r' = r" "masks' = masks" by simp_all
  have lm: "length masks = n"
    using make_masks_wf [of dones n s cfg infos] len wf mk by (auto simp: wf_state_def)
  have d3: "data_of s3 = data_of s" by (simp add: s3)
  then have wf3: "wf_state n s3" using wf by (simp add: wf_state_def data_of_def)
  have d': "data_of s' = data_of s4"
    using run_hooks_Inr [OF hooks] log_training_r_Inr(1) [OF wr] log_and_evaluate_Inr(1) [OF ev]
    by simp
  define acc where "acc = map2 (add32 (round32 fp)) (episode_r s) r"
  from upd update_episodes_wf [OF wf3 len(1) lm, of fp cfg] eqs d3
  have s4: "s4 = s3\<lparr>episode_r := map2 mul_mask acc masks,
                  episode_len := map2 (\<lambda>l m. l * of_bool m) (map succ32 (episode_len s)) masks,
                  episode_idx := map2 (\<lambda>i m. i + (1 - of_bool m)) (episode_idx s) masks,
                  recent_returns :=
                    deque_extend (return_window_size cfg) (recent_returns s)
                      (compressed acc masks),
                  global_t := global_t s + int n\<rparr>"
    by (simp add: data_of_def acc_def)
  have lens: "length (episode_r s) = n" "length (episode_len s) = n" "length (episode_idx s) = n"
    using wf by (simp_all add: wf_state_def)
  have lacc: "length acc = n"
    and nacc: "\<And>i. i < n \<Longrightarrow> acc ! i = add32 (round32 fp) (episode_r s ! i) (r ! i)"
    using lens len by (simp_all add: acc_def)
  have er: "episode_r s' = map2 mul_mask acc masks"
    and el: "episode_len s' = map2 (\<lambda>l m. l * of_bool m) (map succ32 (episode_len s)) masks"
    and ei: "episode_idx s' = map2 (\<lambda>i m. i + (1 - of_bool m)) (episode_idx s) masks"
    and rr: "recent_returns s' = deque_extend (return_window_size cfg) (recent_returns s)
                      (compressed acc masks)"
    using d' by (simp_all add: s4 data_of_def)
  define ended where
    "ended = map (\<lambda>i. add32 (round32 fp) (episode_r s ! i) (r ! i))
               (filter (\<lambda>i. \<not> masks ! i) [0..<n])"
  have "compressed acc masks = map (\<lambda>i. acc ! i) (filter (\<lambda>i. \<not> masks ! i) [0..<n])"
    using lacc lm compressed_nth [of masks acc] by simp
  also have "\<dots> = ended"
    unfolding ended_def by (rule map_cong) (auto simp: nacc)
  finally have comp: "compressed acc masks = ended" .
  have 1: "recent_returns s'
             = (case return_window_size cfg of
                  None \<Rightarrow> recent_returns s @ ended
                | Some m \<Rightarrow> drop (length (recent_returns s @ ended) - m) (recent_returns s @ ended))"
    using win
    by (auto simp: rr comp window_ok_def deque_extend_unbounded deque_extend_bounded
             split: option.splits)
  have 2: "wf_state n s'"
    using lens len lm lacc by (simp add: wf_state_def er el ei)
  have 3: "window_ok cfg s'"
    using 1 by (auto simp: window_ok_def split: option.splits)
  have 5: "counters_ok s'"
    unfolding counters_ok_def list_all_length
  proof (intro allI impI)
    fix i assume "i < length (episode_len s')"
    with lens lm have i: "i < n" by (simp add: el)
    with cnt lens have "0 \<le> episode_len s ! i \<and> episode_len s ! i \<le> 2 ^ 24"
      by (simp add: counters_ok_def list_all_length)
    with i lens lm show "0 \<le> episode_len s' ! i \<and> episode_len s' ! i \<le> 2 ^ 24"
      by (simp add: el succ32_def)
  qed
  have 4: "\<forall>i<n. if masks ! i
                then episode_r s' ! i = add32 (round32 fp) (episode_r s ! i) (r ! i)
                     \<and> episode_len s' ! i
                         = (if episode_len s ! i < 2 ^ 24 then episode_len s ! i + 1
                            else episode_len s ! i)
                     \<and> episode_idx s' ! i = episode_idx s ! i
                else episode_r s' ! i
                       = (case add32 (round32 fp) (episode_r s ! i) (r ! i) of
                            Num _ \<Rightarrow> Num 0 | _ \<Rightarrow> NaN)
                     \<and> episode_len s' ! i = 0
                     \<and> episode_idx s' ! i = episode_idx s ! i + 1"
  proof (intro allI impI)
    fix i assume i: "i < n"
    have "mul_mask v False = (case v of Num _ \<Rightarrow> Num 0 | _ \<Rightarrow> NaN)" for v
      by (cases v) simp_all
    with i lens len lm lacc nacc [OF i]
    show "if masks ! i
                then episode_r s' ! i = add32 (round32 fp) (episode_r s ! i) (r ! i)
                     \<and> episode_len s' ! i
                         = (if episode_len s ! i < 2 ^ 24 then episode_len s ! i + 1
                            else episode_len s ! i)
                     \<and> episode_idx s' ! i = episode_idx s ! i
                else episode_r s' ! i
                       = (case add32 (round32 fp) (episode_r s ! i) (r ! i) of
                            Num _ \<Rightarrow> Num 0 | _ \<Rightarrow> NaN)
                     \<and> episode_len s' ! i = 0
                     \<and> episode_idx s' ! i = episode_idx s ! i + 1"
      by (simp add: er el ei succ32_def)
  qed
  from 1 2 3 4 5 show ?thesis unfolding ended_def Let_def by blast
qed

theorem episode_bookkeeping_witness:
  "\<exists>brk s'.
     iteration exact_numerics scenario_config 2 (quiet_response [Num 1, Num 2] [False, True])
       (initial_state scenario_config (quiet_world 2 []) 2) = Inr (brk, s')
     \<and> recent_returns s' = [Num 2] \<and> episode_r s' = [Num 1, Num 0] \<and> episode_len s' = [1, 0]
     \<and> episode_idx s' = [0, 1]"
proof -
  let ?s = "initial_state scenario_config (quiet_world 2 []) 2"
  let ?rs = "quiet_response [Num 1, Num 2] [False, True]"
  let ?infos = "[[(''reset'', PyBool False)], [(''reset'', PyBool False)]]"
  obtain s' where it: "iteration exact_numerics scenario_config 2 ?rs ?s = Inr (False, s')"
    and vals: "episode_r s' = [Num 1, Num 0]" "episode_len s' = [1, 0]" "episode_idx s' = [0, 1]"
    by (simp add: scenario_config_def run_defs)
  have wf: "wf_state 2 ?s"
    by (simp add: wf_state_def initial_state_def)
  have win: "window_ok scenario_config ?s"
    by (simp add: window_ok_def scenario_config_def scenario_defs)
  have cnt: "counters_ok ?s"
    by (simp add: counters_ok_def initial_state_def list_all_length)
  have out: "step_result ?rs = Inr ([Num 1, Num 2], [False, True], [[], []])"
    by (simp add: quiet_response_def eval_nat_numeral)
  have mk: "make_masks scenario_config 2 [False, True] [[], []] ?s = Inr (?infos, [True, False])"
    by (simp add: scenario_config_def run_defs)
  from episode_bookkeeping [OF wf win cnt out _ _ mk it]
  have "recent_returns s' = [Num 2]"
    by (simp add: scenario_config_def run_defs)
  with it vals show ?thesis by blast
qed

subsection \<open>The global step counter\<close>

lemma while_loop_normal_exit:
  assumes "while_loop fp cfg n rss s = Some (Inr s')"
  shows "\<exists>k\<le>length rss.
           global_t s' = global_t s + int k * int n
           \<and> (\<forall>j<k. global_t s + int j * int n < steps cfg)
           \<and> (steps cfg \<le> global_t s'
                \<or> (0 < k \<and> early_success cfg (rss ! (k - 1)) (global_t s')))"
  using assms
proof (induction rss arbitrary: s)
  case Nil
  then show ?case by (simp split: if_splits)
next
  case (Cons rs rest)
  show ?case
  proof (cases "global_t s < steps cfg")
    case False
    with Cons.prems show ?thesis by auto
  next
    case True
    with Cons.prems obtain brk s1 where it: "iteration fp cfg n rs s = Inr (brk, s1)"
      and rest: "if brk then s' = s1 else while_loop fp cfg n rest s1 = Some (Inr s')"
      by (auto split: sum.splits if_splits)
    have t1: "global_t s1 = global_t s + int n"
      using it by (rule iteration_global_t)
    show ?thesis
    proof (cases brk)
      case True
      with rest it have "iteration fp cfg n rs s = Inr (True, s')" by simp
      then have "early_success cfg rs (global_t s')"
        by (rule iteration_break)
      with True rest t1 \<open>global_t s < steps cfg\<close> show ?thesis
        by (intro exI [of _ 1]) simp
    next
      case False
      with rest have "while_loop fp cfg n rest s1 = Some (Inr s')" by simp
      from Cons.IH [OF this] obtain k where k: "k \<le> length rest"
        "global_t s' = global_t s1 + int k * int n"
        "\<forall>j<k. global_t s1 + int j * int n < steps cfg"
        "steps cfg \<le> global_t s' \<or> (0 < k \<and> early_success cfg (rest ! (k - 1)) (global_t s'))"
        by blast
      have "\<forall>j<Suc k. global_t s + int j * int n < steps cfg"
      proof (intro allI impI)
        fix j assume "j < Suc k"
        show "global_t s + int j * int n < steps cfg"
        proof (cases j)
          case 0
          with \<open>global_t s < steps cfg\<close> show ?thesis by simp
        next
          case (Suc j')
          with \<open>j < Suc k\<close> k(3) have "global_t s1 + int j' * int n < steps cfg" by simp
          with t1 Suc show ?thesis by (simp add: algebra_simps)
        qed
      qed
      moreover have "global_t s' = global_t s + int (Suc k) * int n"
        using k(2) t1 by (simp add: algebra_simps)
      moreover have "steps cfg \<le> global_t s'
          \<or> (0 < Suc k \<and> early_success cfg ((rs # rest) ! (Suc k - 1)) (global_t s'))"
        using k(4) by (cases k) auto
      moreover have "Suc k \<le> length (rs # rest)" using k(1) by simp
      ultimately show ?thesis by blast
    qed
  qed
qed

lemma while_loop_exits_at_once:
  "steps cfg \<le> global_t s \<Longrightarrow> while_loop fp cfg n rss s = Some (Inr s)"
  by (cases rss) simp_all

lemma while_loop_returns:
  assumes "0 < n" and "steps cfg - global_t s \<le> int (length rss) * int n"
  shows "while_loop fp cfg n rss s \<noteq> None"
  using assms(2)
proof (induction rss arbitrary: s)
  case Nil
  then show ?case by simp
next
  case (Cons rs rest)
  show ?case
  proof (cases "iteration fp cfg n rs s")
    case (Inl x)
    then show ?thesis by simp
  next
    case (Inr p)
    obtain brk s1 where p: "p = (brk, s1)" by (cases p)
    from Inr p have "global_t s1 = global_t s + int n"
      using iteration_global_t by blast
    with Cons.prems have "steps cfg - global_t s1 \<le> int (length rest) * int n"
      by (simp add: algebra_simps)
    from Cons.IH [OF this] Inr p show ?thesis by simp
  qed
qed

lemma iteration_break_iff:
  assumes "iteration fp cfg n rs s = Inr (brk, s')"
  shows "brk \<longleftrightarrow> early_success cfg rs (global_t s')"
proof -
  from assms obtain s6 where ev: "log_and_evaluate fp cfg rs s6 = Inr (brk, s')"
    by (elim iteration_Inr)
  from log_and_evaluate_Inr(1) [OF ev] have "global_t s' = global_t s6"
    by (simp add: data_of_def)
  with log_and_evaluate_Inr(3) [OF ev] show ?thesis by simp
qed

lemma while_loop_after_iteration:
  assumes "global_t s < steps cfg" and "iteration fp cfg n rs s = Inr (brk, s')"
  shows "while_loop fp cfg n (rs # rest) s
           = (if early_success cfg rs (global_t s') then Some (Inr s')
              else while_loop fp cfg n rest s')"
  using assms iteration_break_iff [OF assms(2)] by simp

text \<open>
  Claim C5. \<open>t\<close> starts at \<open>step_offset\<close>, which is also assigned to
  \<open>agent.t\<close> exactly when the agent has that attribute; every iteration that completes
  adds \<open>N\<close>, and ends with \<open>break\<close> exactly when the early-success condition holds,
  in which case the loop ends with the state of that iteration, while otherwise the
  loop goes on from it; a loop that ends normally has run \<open>k\<close> iterations, each entered
  with \<open>t < steps\<close>, and ends with \<open>t \<ge> steps\<close> or with the early-success condition of
  its last iteration; with \<open>t \<ge> steps\<close> it ends at once; and for \<open>N > 0\<close> it does end
  within \<open>(steps - t) / N\<close> iterations, rounded up.
\<close>

theorem global_step_counter:
  "global_t (initial_state cfg w n) = step_offset cfg
   \<and> (SetAgentT (step_offset cfg) \<in> set (trace (initial_state cfg w n)) \<longleftrightarrow> agent_has_t w)
   \<and> (iteration fp cfg n rs s = Inr (brk, s') \<longrightarrow>
        global_t s' = global_t s + int n \<and> (brk \<longleftrightarrow> early_success cfg rs (global_t s')))
   \<and> (global_t s < steps cfg \<and> iteration fp cfg n rs s = Inr (brk, s') \<longrightarrow>
        while_loop fp cfg n (rs # rest) s
          = (if early_success cfg rs (global_t s') then Some (Inr s')
             else while_loop fp cfg n rest s'))
   \<and> (while_loop fp cfg n rss s = Some (Inr s') \<longrightarrow>
        (\<exists>k\<le>length rss.
           global_t s' = global_t s + int k * int n
           \<and> (\<forall>j<k. global_t s + int j * int n < steps cfg)
           \<and> (steps cfg \<le> global_t s'
                \<or> (0 < k \<and> early_success cfg (rss ! (k - 1)) (global_t s')))))
   \<and> (steps cfg \<le> global_t s \<longrightarrow> while_loop fp cfg n rss s = Some (Inr s))
   \<and> (0 < n \<and> steps cfg - global_t s \<le> int (length rss) * int n
        \<longrightarrow> while_loop fp cfg n rss s \<noteq> None)"
proof -
  have a: "global_t (initial_state cfg w n) = step_offset cfg"
    by (simp add: initial_state_def)
  have b: "SetAgentT (step_offset cfg) \<in> set (trace (initial_state cfg w n)) \<longleftrightarrow> agent_has_t w"
    by (simp add: initial_state_def)
  have c: "iteration fp cfg n rs s = Inr (brk, s') \<longrightarrow>
        global_t s' = global_t s + int n \<and> (brk \<longleftrightarrow> early_success cfg rs (global_t s'))"
    using iteration_global_t iteration_break_iff by blast
  have c': "global_t s < steps cfg \<and> iteration fp cfg n rs s = Inr (brk, s') \<longrightarrow>
        while_loop fp cfg n (rs # rest) s
          = (if early_success cfg rs (global_t s') then Some (Inr s')
             else while_loop fp cfg n rest s')"
    using while_loop_after_iteration by blast
  have d: "while_loop fp cfg n rss s = Some (Inr s') \<longrightarrow>
        (\<exists>k\<le>length rss.
           global_t s' = global_t s + int k * int n
           \<and> (\<forall>j<k. global_t s + int j * int n < steps cfg)
           \<and> (steps cfg \<le> global_t s'
                \<or> (0 < k \<and> early_success cfg (rss ! (k - 1)) (global_t s'))))"
    using while_loop_normal_exit by blast
  have e: "steps cfg \<le> global_t s \<longrightarrow> while_loop fp cfg n rss s = Some (Inr s)"
    using while_loop_exits_at_once by blast
  have f: "0 < n \<and> steps cfg - global_t s \<le> int (length rss) * int n
        \<longrightarrow> while_loop fp cfg n rss s \<noteq> None"
    using while_loop_returns by blast
  show ?thesis by (intro conjI a b c c' d e f)
qed

theorem global_step_counter_witness:
  "(\<exists>s'. while_loop exact_numerics scenario_config 2
            [quiet_response [Num 1, Num 2] [False, True], quiet_response [Num 3, Num 4] [True, False]]
            (initial_state scenario_config (quiet_world 2 []) 2) = Some (Inr s')
         \<and> global_t s' = 4 \<and> steps scenario_config \<le> global_t s')
   \<and> (\<exists>s'. while_loop exact_numerics early_success_config 2 (responses early_success_world)
            (initial_state early_success_config early_success_world 2) = Some (Inr s')
         \<and> global_t s' = 2 \<and> global_t s' < steps early_success_config)"
proof -
  let ?s = "initial_state scenario_config (quiet_world 2 []) 2"
  let ?rss = "[quiet_response [Num 1, Num 2] [False, True],
               quiet_response [Num 3, Num 4] [True, False]]"
  note gsc = global_step_counter [where fp = exact_numerics and cfg = scenario_config and n = 2
      and s = ?s and rss = ?rss]
  have bound: "0 < (2::nat) \<and> steps scenario_config - global_t ?s \<le> int (length ?rss) * int 2"
    by (simp add: scenario_config_def scenario_defs)
  obtain res where res: "while_loop exact_numerics scenario_config 2 ?rss ?s = Some res"
    using gsc bound by blast
  have "while_loop exact_numerics scenario_config 2 ?rss ?s \<noteq> Some (Inl x)" for x
    by (simp add: scenario_config_def run_defs)
  with res obtain s' where s': "while_loop exact_numerics scenario_config 2 ?rss ?s = Some (Inr s')"
    by (cases res) auto
  from global_step_counter [where fp = exact_numerics and cfg = scenario_config and n = 2
      and s = ?s and rss = ?rss and s' = s'] s'
  obtain k where k: "k \<le> length ?rss" "global_t s' = global_t ?s + int k * int 2"
    "steps scenario_config \<le> global_t s'
       \<or> (0 < k \<and> early_success scenario_config (?rss ! (k - 1)) (global_t s'))"
    by blast
  have "\<not> early_success scenario_config rs t'" for rs t'
    by (simp add: early_success_def scenario_config_def default_config_def)
  with k(3) have ge: "steps scenario_config \<le> global_t s'" by blast
  have "k \<le> 2" using k(1) by simp
  with k(2) ge have "global_t s' = 4"
    by (simp add: scenario_config_def scenario_defs)
  with s' ge have first: "\<exists>s'. while_loop exact_numerics scenario_config 2 ?rss ?s = Some (Inr s')
         \<and> global_t s' = 4 \<and> steps scenario_config \<le> global_t s'"
    by blast
  let ?e = "initial_state early_success_config early_success_world 2"
  let ?rs = "(quiet_response [Num 1, Num 2] [False, False])\<lparr>evaluate_result := Inr 5\<rparr>"
  obtain brk e' where it: "iteration exact_numerics early_success_config 2 ?rs ?e = Inr (brk, e')"
    by (simp add: early_success_config_def early_success_world_def run_defs)
  have lt: "global_t ?e < steps early_success_config"
    by (simp add: early_success_config_def scenario_defs)
  from global_step_counter [where fp = exact_numerics and cfg = early_success_config and n = 2
      and s = ?e and rs = ?rs and brk = brk and s' = e' and w = early_success_world and rest = "[]"]
    it lt
  have t': "global_t e' = 2"
    and wl: "while_loop exact_numerics early_success_config 2 [?rs] ?e
          = (if early_success early_success_config ?rs (global_t e') then Some (Inr e')
             else while_loop exact_numerics early_success_config 2 [] e')"
    by (simp_all add: early_success_config_def scenario_defs)
  have "early_success early_success_config ?rs 2"
    by (simp add: early_success_def early_success_config_def default_config_def
          at_log_interval_def quiet_response_def)
  with wl t' have "while_loop exact_numerics early_success_config 2
      (responses early_success_world) ?e = Some (Inr e')"
    by (simp add: early_success_world_def quiet_world_def)
  with t' have second: "\<exists>s'. while_loop exact_numerics early_success_config 2
            (responses early_success_world) ?e = Some (Inr s')
         \<and> global_t s' = 2 \<and> global_t s' < steps early_success_config"
    by (auto simp: early_success_config_def default_config_def)
  from first second show ?thesis by blast
qed

subsection \<open>Leaving \<open>train_agent_batch\<close>\<close>

text \<open>
  \<open>env.step\<close> is interrupted in the first iteration and \<open>save_agent\<close> raises in the
  handler: neither environment is closed, and the exception of \<open>save_agent\<close> leaves the
  function in place of the \<open>KeyboardInterrupt\<close>.
\<close>

theorem failed_save_skips_close:
  "train_agent_batch interrupted_config failed_save_world
     = Some ([EnvReset, SetAgentT 0, BatchActAndTrain, EnvStep, SaveAgent 0 ''_except''],
             Raised (OtherException 0))"
  by (simp add: interrupted_config_def failed_save_world_def interrupted_world_def run_defs)

text \<open>
  Claim C1, amended. When the loop ends by an exception \<open>e\<close> raised in the state \<open>s\<close>:
  if \<open>e\<close> is an \<open>Exception\<close> or a \<open>KeyboardInterrupt\<close>, the handler calls
  \<open>save_agent\<close> with the suffix \<open>_except\<close> at the \<open>t\<close> of \<open>s\<close>, then \<open>env.close()\<close>,
  then \<open>evaluator.env.close()\<close> when an evaluator is given (the same environment or
  another), and \<open>e\<close> leaves the function; a call of the handler that raises ends it at
  once with its own exception, the later calls left out. Any other exception (a
  \<open>SystemExit\<close>) leaves the function with no call at all. When the loop ends normally,
  \<open>save_agent\<close> is called with the suffix \<open>_finish\<close>, and the function returns unless
  that call raises.
\<close>

theorem checkpoint_on_every_exit:
  assumes "num_envs w = Inr n" and "initial_reset_raises w = None"
    and "while_loop (platform w) cfg n (responses w) (initial_state cfg w n) = Some res"
  shows "train_agent_batch cfg w
           = Some (case res of
                Inl (e, s) \<Rightarrow>
                  if e = SystemExit then (trace s, Raised SystemExit)
                  else
                    (case save_agent_raises w of
                       Some e1 \<Rightarrow> (trace s @ [SaveAgent (global_t s) ''_except''], Raised e1)
                     | None \<Rightarrow>
                    (case env_close_raises w of
                       Some e2 \<Rightarrow>
                         (trace s @ [SaveAgent (global_t s) ''_except'', EnvClose (env cfg)],
                          Raised e2)
                     | None \<Rightarrow>
                    (case evaluator cfg of
                       None \<Rightarrow>
                         (trace s @ [SaveAgent (global_t s) ''_except'', EnvClose (env cfg)],
                          Raised e)
                     | Some ev \<Rightarrow>
                         (trace s @ [SaveAgent (global_t s) ''_except'', EnvClose (env cfg),
                                     EnvClose (eval_env ev)],
                          case eval_env_close_raises w of
                            Some e3 \<Rightarrow> Raised e3
                          | None \<Rightarrow> Raised e))))
              | Inr s \<Rightarrow>
                  (trace s @ [SaveAgent (global_t s) ''_finish''],
                   case save_agent_raises w of Some e1 \<Rightarrow> Raised e1 | None \<Rightarrow> Returned))"
proof (cases res)
  case (Inl p)
  obtain e s where p: "p = (e, s)" by (cases p)
  have "caught e \<longleftrightarrow> e \<noteq> SystemExit" by (cases e) simp_all
  with assms Inl p show ?thesis
    by (simp add: train_agent_batch_def except_handler_def Let_def split: option.splits)
next
  case (Inr s)
  with assms show ?thesis
    by (simp add: train_agent_batch_def finish_def Let_def split: option.splits)
qed

theorem checkpoint_on_every_exit_witness:
  "train_agent_batch interrupted_config interrupted_world
     = Some ([EnvReset, SetAgentT 0, BatchActAndTrain, EnvStep,
              SaveAgent 0 ''_except'', EnvClose 0, EnvClose 1], Raised KeyboardInterrupt)"
proof -
  let ?s = "\<lparr>global_t = 0, episode_r = [Num 0, Num 0], episode_idx = [0, 0],
             episode_len = [0, 0], recent_returns = [],
             trace = [EnvReset, SetAgentT 0, BatchActAndTrain, EnvStep]\<rparr>"
  have h1: "num_envs interrupted_world = Inr 2"
    and h2: "initial_reset_raises interrupted_world = None"
    by (simp_all add: interrupted_world_def quiet_world_def)
  have h3: "while_loop (platform interrupted_world) interrupted_config 2
              (responses interrupted_world)
              (initial_state interrupted_config interrupted_world 2)
            = Some (Inl (KeyboardInterrupt, ?s))"
    by (simp add: interrupted_config_def interrupted_world_def run_defs)
  from checkpoint_on_every_exit [OF h1 h2 h3]
  show ?thesis
    by (simp add: interrupted_config_def interrupted_world_def default_config_def quiet_world_def)
qed

text \<open>
  An evaluator that holds the environment of the training: that environment is closed
  twice.
\<close>

lemma shared_environment_is_closed_twice:
  "train_agent_batch (interrupted_config\<lparr>evaluator := Some \<lparr>eval_env = 0\<rparr>\<rparr>) interrupted_world
     = Some ([EnvReset, SetAgentT 0, BatchActAndTrain, EnvStep,
              SaveAgent 0 ''_except'', EnvClose 0, EnvClose 0], Raised KeyboardInterrupt)"
  by (simp add: interrupted_config_def interrupted_world_def run_defs)

text \<open>
  Claim C8. When \<open>env.num_envs\<close> raises \<open>AttributeError\<close>, the error is logged and
  raised again, and nothing else happens: the trace holds the log entry only.
\<close>

theorem missing_num_envs_is_reraised:
  assumes "num_envs w = Inl AttributeError"
  shows "train_agent_batch cfg w = Some ([LogError], Raised AttributeError)"
  using assms by (simp add: train_agent_batch_def)

theorem missing_num_envs_is_reraised_witness:
  "train_agent_batch scenario_config ((quiet_world 0 [])\<lparr>num_envs := Inl AttributeError\<rparr>)
     = Some ([LogError], Raised AttributeError)"
  by (rule missing_num_envs_is_reraised) (simp add: quiet_world_def)

subsection \<open>The scenario with two instances\<close>

text \<open>
  Claim C6. Two instances, \<open>steps = 4\<close>, no \<open>max_episode_len\<close>, done flags
  \<open>[False, True]\<close> then \<open>[True, False]\<close>, rewards \<open>[a0, a1]\<close> then \<open>[b0, b1]\<close>, on any
  platform: the first iteration records the return of slot 1, which is \<open>a1\<close> added to
  zero in \<open>float32\<close>, and leaves \<open>episode_idx = [0, 1]\<close>; the second reaches \<open>t = 4\<close>,
  records the return of slot 0, which is \<open>a0\<close> and then \<open>b0\<close> added in \<open>float32\<close>, and
  leaves \<open>episode_idx = [1, 1]\<close>; the loop ends there and the agent is saved with the
  suffix \<open>_finish\<close>.
\<close>

theorem two_instance_scenario:
  "\<exists>s1 s2.
     iteration fp scenario_config 2 (quiet_response [a0, a1] [False, True])
       (initial_state scenario_config (scenario_world fp a0 a1 b0 b1) 2) = Inr (False, s1)
     \<and> episode_idx s1 = [0, 1] \<and> recent_returns s1 = [add32 (round32 fp) (Num 0) a1]
     \<and> iteration fp scenario_config 2 (quiet_response [b0, b1] [True, False]) s1 = Inr (False, s2)
     \<and> global_t s2 = 4 \<and> episode_idx s2 = [1, 1]
     \<and> recent_returns s2
         = [add32 (round32 fp) (Num 0) a1,
            add32 (round32 fp) (add32 (round32 fp) (Num 0) a0) b0]
     \<and> while_loop fp scenario_config 2 (responses (scenario_world fp a0 a1 b0 b1))
          (initial_state scenario_config (scenario_world fp a0 a1 b0 b1) 2) = Some (Inr s2)
     \<and> train_agent_batch scenario_config (scenario_world fp a0 a1 b0 b1)
          = Some (trace s2 @ [SaveAgent 4 ''_finish''], Returned)"
  by (simp add: scenario_config_def scenario_world_def run_defs)

text \<open>
  On a platform that does not round, and for finite rewards, the two returns recorded
  are \<open>a1\<close> and \<open>a0 + b0\<close>.
\<close>

lemma two_instance_scenario_exact:
  "\<exists>s. while_loop exact_numerics scenario_config 2
          (responses (scenario_world exact_numerics (Num a0) (Num a1) (Num b0) (Num b1)))
          (initial_state scenario_config
             (scenario_world exact_numerics (Num a0) (Num a1) (Num b0) (Num b1)) 2)
        = Some (Inr s)
      \<and> global_t s = 4 \<and> episode_idx s = [1, 1] \<and> recent_returns s = [Num a1, Num (a0 + b0)]"
  by (simp add: scenario_config_def scenario_world_def run_defs)

subsection \<open>The reset mask and \<open>max_episode_len\<close>\<close>

lemma reset_mask_unset: "reset_mask_of n None elen = replicate n False"
  by (simp add: reset_mask_of_def)

lemma reset_mask_set:
  "i < length elen \<Longrightarrow> reset_mask_of n (Some m) elen ! i \<longleftrightarrow> elen ! i = m"
  by (simp add: reset_mask_of_def)

text \<open>
  Claim C2. Line 110 compares \<open>episode_len\<close> as it is before line 122 increments it.
  With one instance, \<open>max_episode_len = 1\<close> and an environment that never signals done,
  the first iteration, after which the episode has run one step, passes the mask
  \<open>[True]\<close> to \<open>env.reset\<close> and the reset flag \<open>False\<close> to the agent; only the second
  iteration resets, so the episode runs two steps.
\<close>

theorem reset_mask_compares_before_increment:
  "train_agent_batch truncation_config truncation_world
     = Some ([EnvReset, SetAgentT 0,
              BatchActAndTrain, EnvStep, EnvResetMask [True],
              BatchObserveAndTrain [Num 1] [False] [[(''reset'', PyBool False)]],
              BatchActAndTrain, EnvStep, EnvResetMask [False],
              BatchObserveAndTrain [Num 1] [False] [[(''reset'', PyBool True)]],
              SaveAgent 2 ''_finish''], Returned)"
  by (simp add: truncation_config_def truncation_world_def run_defs)

subsection \<open>The results file\<close>

text \<open>
  A run with \<open>save_training_r\<close> and \<open>log_interval = 1\<close> whose first iteration ends
  no episode: the window is empty at line 136, and the line written is the step, a
  tab, \<open>nan\<close> and a newline.
\<close>

theorem empty_window_write_counterexample:
  "train_agent_batch empty_window_config empty_window_world
     = Some ([EnvReset, SetAgentT 0, BatchActAndTrain, EnvStep, EnvResetMask [True],
              BatchObserveAndTrain [Num 1] [False] [[(''reset'', PyBool False)]],
              OpenFile ''out/training_r.txt'' ''a+'',
              FilePrint ''out/training_r.txt'' (''1'' @ [CHR 0x09] @ ''nan'' @ [CHR 0x0A]),
              SaveAgent 1 ''_finish''], Returned)"
  by (simp add: empty_window_config_def empty_window_world_def run_defs str_int_def
        str_nat.simps digit_char_def)

lemma file_after_hooks: "file_after p c (map (\<lambda>h. StepHook h t') hs) = c"
  by (induction hs) simp_all

text \<open>When line 136 raises, by \<open>open\<close> or by \<open>t % log_interval\<close>, no file changes.\<close>

lemma failed_write_leaves_files:
  assumes "log_training_r fp cfg rs s = Inl (e, s')"
  shows "file_after q c (trace s') = file_after q c (trace s)"
  using assms
  by (auto simp: log_training_r_def write_to_file_def Let_def
           split: if_splits sum.splits option.splits)

text \<open>
  Claim C7, amended. An iteration that completes with \<open>save_training_r\<close> true and
  \<open>t\<close> a multiple of \<open>log_interval\<close> leaves \<open>training_r.txt\<close> in the output
  directory, created if it was absent, with its former content followed by one line:
  the step, a tab, the mean of the recent-returns window, a newline. For an empty
  window there is no guard: the line is written all the same, with \<open>nan\<close> for the mean.
  Otherwise the file is as it was, and no other file changes in either case.
\<close>

theorem training_r_line:
  assumes "iteration fp cfg n rs s = Inr (brk, s')"
  shows "file_after (path_join (outdir cfg) ''training_r.txt'') c (trace s')
           = (if save_training_r cfg
                 \<and> (case log_interval cfg of None \<Rightarrow> False | Some l \<Rightarrow> global_t s' mod l = 0)
              then Some ((case file_after (path_join (outdir cfg) ''training_r.txt'') c (trace s) of
                            None \<Rightarrow> []
                          | Some old \<Rightarrow> old)
                         @ str_int (global_t s') @ [CHR 0x09]
                         @ (if recent_returns s' = [] then ''nan''
                            else str_fval fp (mean32 fp (recent_returns s')))
                         @ [CHR 0x0A])
              else file_after (path_join (outdir cfg) ''training_r.txt'') c (trace s))
         \<and> (\<forall>q. q \<noteq> path_join (outdir cfg) ''training_r.txt''
                \<longrightarrow> file_after q c (trace s') = file_after q c (trace s))"
proof -
  let ?p = "path_join (outdir cfg) ''training_r.txt''"
  from assms obtain r dones infos' masks s3 s4 s5 s6 where
    s3: "s3 = emit (BatchObserveAndTrain r dones infos') (emit (EnvResetMask masks)
               (emit EnvStep (emit BatchActAndTrain s)))"
    and upd: "update_episodes fp cfg n r masks s3 = Inr s4"
    and hooks: "run_hooks rs (step_hooks cfg) s4 = Inr s5"
    and wr: "log_training_r fp cfg rs s5 = Inr s6"
    and ev: "log_and_evaluate fp cfg rs s6 = Inr (brk, s')"
    by (elim iteration_Inr) blast
  have l5: "file_after q c (trace s5) = file_after q c (trace s)" for q
    using update_episodes_global_t [OF upd] run_hooks_Inr [OF hooks]
    by (simp add: s3 file_after_hooks)
  have d: "data_of s' = data_of s5"
    using log_training_r_Inr(1) [OF wr] log_and_evaluate_Inr(1) [OF ev] by simp
  then have t5: "global_t s5 = global_t s'" and r5: "recent_returns s5 = recent_returns s'"
    by (simp_all add: data_of_def)
  define due where
    "due \<longleftrightarrow> save_training_r cfg
             \<and> (case log_interval cfg of None \<Rightarrow> False | Some l \<Rightarrow> global_t s' mod l = 0)"
  define line where
    "line = str_int (global_t s') @ [CHR 0x09]
              @ (if recent_returns s' = [] then ''nan''
                 else str_fval fp (mean32 fp (recent_returns s')))
              @ [CHR 0x0A]"
  have "save_training_r cfg \<and> at_log_interval (global_t s') (log_interval cfg) = Inr True
          \<longleftrightarrow> due"
    using log_training_r_Inr(3) [OF wr]
    by (auto simp: due_def t5 at_log_interval_def split: option.splits if_splits)
  moreover have "str_int (global_t s') @ [CHR 0x09]
                   @ str_fval fp (np_mean fp (recent_returns s')) @ [CHR 0x0A] = line"
    by (simp add: line_def np_mean_def str_fval_def)
  ultimately have tr6: "trace s6 = trace s5 @ (if due then [OpenFile ?p ''a+'', FilePrint ?p line]
                                                else [])"
    using log_training_r_Inr(2) [OF wr] by (simp add: t5 r5)
  have l6: "file_after q c (trace s6)
              = (if due \<and> q = ?p
                 then Some ((case file_after q c (trace s) of None \<Rightarrow> [] | Some old \<Rightarrow> old) @ line)
                 else file_after q c (trace s))" for q
    by (cases "file_after q c (trace s)") (auto simp: tr6 l5)
  have l7: "file_after q c (trace s') = file_after q c (trace s6)" for q
    using log_and_evaluate_Inr(2) [OF ev] .
  show ?thesis
    unfolding l7 l6 due_def line_def by simp
qed

theorem training_r_line_witness:
  "\<exists>brk s'.
     iteration exact_numerics empty_window_config 1 (quiet_response [Num 1] [False])
       (initial_state empty_window_config empty_window_world 1) = Inr (brk, s')
     \<and> file_after ''out/training_r.txt'' None (trace s')
         = Some (''1'' @ [CHR 0x09] @ ''nan'' @ [CHR 0x0A])"
proof -
  let ?s = "initial_state empty_window_config empty_window_world 1"
  obtain s' where it: "iteration exact_numerics empty_window_config 1
                         (quiet_response [Num 1] [False]) ?s = Inr (False, s')"
    and vals: "global_t s' = 1" "recent_returns s' = []"
    by (simp add: empty_window_config_def empty_window_world_def run_defs)
  have s0: "file_after ''out/training_r.txt'' None (trace ?s) = None"
    by (simp add: initial_state_def)
  from training_r_line [OF it, of None] vals s0
  have "file_after ''out/training_r.txt'' None (trace s')
          = Some (''1'' @ [CHR 0x09] @ ''nan'' @ [CHR 0x0A])"
    by (simp add: empty_window_config_def default_config_def path_join_def str_int_def
          str_nat.simps digit_char_def)
  with it show ?thesis by blast
qed

subsection \<open>The replay-buffer prompt\<close>

text \<open>
  An agent whose replay buffer is empty is asked all the same, and the buffer is saved
  on a yes.
\<close>

theorem empty_replay_buffer_counterexample:
  "ask_and_save_agent_replay_buffer \<lparr>replay_buffer = Some 0\<rparr> 15 ''out'' [] True
     = ([AskYesNo ''Replay buffer has 0 transitions. Do you save them to a file?'',
         ReplayBufferSave ''out/15.replay.pkl'', LogInfo ''out/15.replay.pkl''], Returned)"
  by (simp add: ask_and_save_agent_replay_buffer_def save_agent_replay_buffer_def path_join_def
        str_int_def str_nat.simps digit_char_def Let_def)

text \<open>
  Claim C9, amended. The user is asked exactly when the agent has a replay buffer,
  whatever its length, which the question reports; the buffer is saved, and the file
  name logged, only on a yes; without a replay buffer nothing is asked and nothing is
  saved.
\<close>

theorem replay_buffer_prompt:
  "ask_and_save_agent_replay_buffer ag step dir suffix answer
     = (case replay_buffer ag of
          None \<Rightarrow> ([], Returned)
        | Some len \<Rightarrow>
            (AskYesNo (''Replay buffer has '' @ str_nat len
                        @ '' transitions. Do you save them to a file?'')
             # (if answer
                then [ReplayBufferSave (path_join dir (str_int step @ suffix @ ''.replay.pkl'')),
                      LogInfo (path_join dir (str_int step @ suffix @ ''.replay.pkl''))]
                else []),
             Returned))"
  by (simp add: ask_and_save_agent_replay_buffer_def save_agent_replay_buffer_def Let_def
           split: option.splits)

theorem replay_buffer_prompt_witness:
  "ask_and_save_agent_replay_buffer \<lparr>replay_buffer = Some 12\<rparr> 15 ''out'' ''_x'' False
     = ([AskYesNo ''Replay buffer has 12 transitions. Do you save them to a file?''], Returned)
   \<and> ask_and_save_agent_replay_buffer \<lparr>replay_buffer = None\<rparr> 15 ''out'' ''_x'' True
     = ([], Returned)"
  using replay_buffer_prompt [of "\<lparr>replay_buffer = Some 12\<rparr>" 15 "''out''" "''_x''" False]
    replay_buffer_prompt [of "\<lparr>replay_buffer = None\<rparr>" 15 "''out''" "''_x''" True]
  by (simp add: str_nat.simps digit_char_def)

subsection \<open>Logging without \<open>log_interval\<close>\<close>

lemma run_hooks_quiet:
  assumes "\<forall>h\<in>set hs. hook_raises rs h = None"
  shows "\<exists>s'. run_hooks rs hs s = Inr s' \<and> data_of s' = data_of s
           \<and> trace s' = trace s @ map (\<lambda>h. StepHook h (global_t s)) hs"
  using assms
proof (induction hs arbitrary: s)
  case Nil
  then show ?case by simp
next
  case (Cons h hs)
  from Cons.prems have "\<forall>h\<in>set hs. hook_raises rs h = None" by simp
  from Cons.IH [OF this, of "emit (StepHook h (global_t s)) s"] Cons.prems
  show ?case by (auto simp: call_def)
qed

text \<open>
  Claim C10. With \<open>log_interval\<close> unset and \<open>save_training_r\<close> true or
  \<open>eval_interval\<close> set, a call whose loop starts and whose first iteration gets as
  far as line 135 raises \<open>TypeError\<close> there: the trace of the iteration ends with the
  step hooks, \<open>t\<close> has been advanced once, the handler saves with the suffix
  \<open>_except\<close> and closes, and \<open>TypeError\<close> leaves the function.
\<close>

theorem log_interval_is_required:
  assumes "log_interval cfg = None"
    and "save_training_r cfg \<or> eval_interval cfg \<noteq> None"
    and "num_envs w = Inr n" and "initial_reset_raises w = None"
    and "step_offset cfg < steps cfg"
    and "responses w = rs # rest"
    and "act_raises rs = None" and "step_result rs = Inr (r, dones, infos)"
    and "length r = n" and "length dones = n"
    and "reset_raises rs = None" and "observe_raises rs = None"
    and "\<forall>h\<in>set (step_hooks cfg). hook_raises rs h = None"
    and "save_agent_raises w = None" and "env_close_raises w = None"
    and "eval_env_close_raises w = None"
  shows "\<exists>s infos' masks.
           iteration (platform w) cfg n rs (initial_state cfg w n) = Inl (TypeError, s)
           \<and> global_t s = step_offset cfg + int n
           \<and> trace s = trace (initial_state cfg w n)
                @ [BatchActAndTrain, EnvStep, EnvResetMask masks,
                   BatchObserveAndTrain r dones infos']
                @ map (\<lambda>h. StepHook h (step_offset cfg + int n)) (step_hooks cfg)
           \<and> train_agent_batch cfg w
               = Some (trace s @ [SaveAgent (step_offset cfg + int n) ''_except'', EnvClose (env cfg)]
                         @ (case evaluator cfg of None \<Rightarrow> [] | Some ev \<Rightarrow> [EnvClose (eval_env ev)]),
                       Raised TypeError)"
proof -
  let ?s0 = "initial_state cfg w n"
  let ?fp = "platform w"
  let ?s2 = "emit EnvStep (emit BatchActAndTrain ?s0)"
  define masks where
    "masks = map2 (\<lambda>reset d. \<not> (reset \<or> d))
               (reset_mask_of n (max_episode_len cfg) (episode_len ?s0)) dones"
  define infos' where
    "infos' = set_reset infos (reset_mask_of n (max_episode_len cfg) (episode_len ?s0))"
  let ?s3 = "emit (BatchObserveAndTrain r dones infos') (emit (EnvResetMask masks) ?s2)"
  have wf0: "wf_state n ?s0" and t0: "global_t ?s0 = step_offset cfg"
    by (simp_all add: wf_state_def initial_state_def)
  have p1: "act_and_step rs ?s0 = Inr ((r, dones, infos), ?s2)"
    using assms(7,8) by (simp add: act_and_step_eq_Inr)
  have len0: "length (episode_len ?s0) = n"
    using wf0 by (simp add: wf_state_def)
  have p2: "make_masks cfg n dones infos ?s2 = Inr (infos', masks)"
    using make_masks_wf [OF assms(10) len0, of cfg infos]
    by (simp only: make_masks_emit masks_def infos'_def)
  have p3: "reset_and_observe rs r dones infos' masks ?s2 = Inr ?s3"
    using assms(11,12) by (simp add: reset_and_observe_eq_Inr)
  have wf3: "wf_state n ?s3"
    using wf0 by (simp add: wf_state_def emit_def)
  have lm: "length masks = n"
    using assms(10) len0 by (simp add: masks_def)
  from update_episodes_wf [OF wf3 assms(9) lm, of ?fp cfg]
  obtain s4 where p4: "update_episodes ?fp cfg n r masks ?s3 = Inr s4"
    by blast
  from update_episodes_global_t [OF p4]
  have t4: "global_t s4 = step_offset cfg + int n" and tr4: "trace s4 = trace ?s3"
    using t0 by simp_all
  from run_hooks_quiet [OF assms(13), of s4]
  obtain s5 where p5: "run_hooks rs (step_hooks cfg) s4 = Inr s5"
    and d5: "data_of s5 = data_of s4"
    and tr5: "trace s5 = trace s4 @ map (\<lambda>h. StepHook h (global_t s4)) (step_hooks cfg)"
    by blast
  from d5 t4 have t5: "global_t s5 = step_offset cfg + int n"
    by (simp add: data_of_def)
  have p6: "then_do (log_training_r ?fp cfg rs s5) (log_and_evaluate ?fp cfg rs)
              = Inl (TypeError, s5)"
    using assms(1,2)
    by (auto simp: log_training_r_def log_and_evaluate_def at_log_interval_def)
  have it: "iteration ?fp cfg n rs ?s0 = Inl (TypeError, s5)"
    by (simp add: iteration_def p1 p2 p3 p4 p5 p6)
  have tr: "trace s5 = trace ?s0
                @ [BatchActAndTrain, EnvStep, EnvResetMask masks,
                   BatchObserveAndTrain r dones infos']
                @ map (\<lambda>h. StepHook h (step_offset cfg + int n)) (step_hooks cfg)"
    by (simp add: tr5 tr4 t4)
  have wl: "while_loop ?fp cfg n (responses w) ?s0 = Some (Inl (TypeError, s5))"
    using assms(5,6) t0 it by simp
  have "train_agent_batch cfg w
               = Some (trace s5 @ [SaveAgent (step_offset cfg + int n) ''_except'', EnvClose (env cfg)]
                         @ (case evaluator cfg of None \<Rightarrow> [] | Some ev \<Rightarrow> [EnvClose (eval_env ev)]),
                       Raised TypeError)"
    using assms(3,4,14,15,16) wl t5
    by (simp add: train_agent_batch_def except_handler_def Let_def split: option.splits)
  with it t5 tr show ?thesis by blast
qed

theorem log_interval_is_required_witness:
  "train_agent_batch ((default_config 0 4 ''out'')\<lparr>save_training_r := True\<rparr>)
       (scenario_world exact_numerics (Num 1) (Num 2) (Num 3) (Num 4))
     = Some ([EnvReset, SetAgentT 0, BatchActAndTrain, EnvStep, EnvResetMask [True, False],
              BatchObserveAndTrain [Num 1, Num 2] [False, True]
                [[(''reset'', PyBool False)], [(''reset'', PyBool False)]],
              SaveAgent 2 ''_except'', EnvClose 0], Raised TypeError)"
proof -
  let ?cfg = "(default_config 0 4 ''out'')\<lparr>save_training_r := True\<rparr>"
  let ?w = "scenario_world exact_numerics (Num 1) (Num 2) (Num 3) (Num 4)"
  let ?rs = "quiet_response [Num 1, Num 2] [False, True]"
  have c: "log_interval ?cfg = None" "save_training_r ?cfg \<or> eval_interval ?cfg \<noteq> None"
    "step_offset ?cfg < steps ?cfg" "\<forall>h\<in>set (step_hooks ?cfg). hook_raises ?rs h = None"
    by (simp_all add: default_config_def)
  have w: "num_envs ?w = Inr 2" "initial_reset_raises ?w = None"
    "responses ?w = ?rs # [quiet_response [Num 3, Num 4] [True, False]]"
    "save_agent_raises ?w = None" "env_close_raises ?w = None" "eval_env_close_raises ?w = None"
    by (simp_all add: scenario_world_def quiet_world_def)
  have r: "act_raises ?rs = None" "step_result ?rs = Inr ([Num 1, Num 2], [False, True], [[], []])"
    "length [Num 1, Num 2] = 2" "length [False, True] = 2"
    "reset_raises ?rs = None" "observe_raises ?rs = None"
    by (simp_all add: quiet_response_def eval_nat_numeral)
  from log_interval_is_required
    [OF c(1) c(2) w(1) w(2) c(3) w(3) r(1) r(2) r(3) r(4) r(5) r(6) c(4) w(4) w(5) w(6)]
  have "\<exists>evs. train_agent_batch ?cfg ?w = Some (evs, Raised TypeError)"
    by (elim exE conjE) (rule exI)
  moreover have "train_agent_batch ?cfg ?w
     = Some ([EnvReset, SetAgentT 0, BatchActAndTrain, EnvStep, EnvResetMask [True, False],
              BatchObserveAndTrain [Num 1, Num 2] [False, True]
                [[(''reset'', PyBool False)], [(''reset'', PyBool False)]],
              SaveAgent 2 ''_except'', EnvClose 0], Raised TypeError)"
    by (simp add: scenario_world_def run_defs)
  ultimately show ?thesis by simp
qed

end
